theory Spec2Isabelle
  imports Main
begin

section \<open>JavaScript values used by the Generator component\<close>

text \<open>
  The component is TypeScript running on a JavaScript engine. Its numbers are IEEE 754
  doubles, its strings are sequences of code units, and a read past the end of an array
  gives \<open>undefined\<close>. This section models the part of that runtime which the component
  calls: \<open>parseInt\<close>, \<open>parseFloat\<close>, \<open>isNaN\<close>, truthiness, the arithmetic of the
  timestamp computation, \<open>Math.floor\<close>, \<open>String\<close> of a number, \<open>slice\<close> and
  \<open>padStart\<close>.

  Strings are \<open>string\<close>; a character stands for the code unit with the same number
  (U+0000 to U+00FF). A possibly-undefined string is a \<open>string option\<close>, \<open>None\<close>
  being \<open>undefined\<close>.
\<close>

subsection \<open>Numbers\<close>

text \<open>
  A double is \<open>NaN\<close>, an infinity, or a finite dyadic rational. \<open>Integral n\<close> is the
  double whose value is the integer \<open>n\<close>; \<open>Dyadic m k\<close> is the double \<open>m / 2 ^ k\<close> with
  \<open>m\<close> odd and \<open>0 < k\<close>, so that equal doubles are equal terms. The sign of zero is not
  kept: \<open>-0\<close> is \<open>Integral 0\<close>. Nothing the component does tells the two zeros apart
  (both are falsy, both print as \<open>0\<close>, neither is NaN).
\<close>

datatype jsnum = NaN | PosInfinity | NegInfinity | Integral int | Dyadic int nat

fun bit_length :: "int \<Rightarrow> nat" where
  "bit_length n = (if n \<le> 0 then 0 else Suc (bit_length (n div 2)))"

declare bit_length.simps [simp del]

text \<open>\<open>num / den\<close> rounded to the nearest integer, ties to the even one.\<close>

definition round_half_even :: "int \<Rightarrow> int \<Rightarrow> int" where
  "round_half_even num den =
     (let q = num div den; r = num mod den
      in if 2 * r < den then q
         else if den < 2 * r then q + 1
         else if even q then q else q + 1)"

text \<open>The double \<open>m / 2 ^ k\<close>, in the normal form of \<open>jsnum\<close>.\<close>

fun reduce :: "int \<Rightarrow> nat \<Rightarrow> jsnum" where
  "reduce m 0 = Integral m"
| "reduce m (Suc k) = (if even m then reduce (m div 2) k else Dyadic m (Suc k))"

text \<open>The integer \<open>L\<close> with \<open>2 ^ L \<le> a / d < 2 ^ (L + 1)\<close>, for positive \<open>a\<close> and \<open>d\<close>.\<close>

definition binary_exponent :: "int \<Rightarrow> int \<Rightarrow> int" where
  "binary_exponent a d =
     (let b = int (bit_length a) - int (bit_length d)
      in if (if 0 \<le> b then d * 2 ^ nat b \<le> a else d \<le> a * 2 ^ nat (- b)) then b else b - 1)"

text \<open>
  The Number value for the rational \<open>n / d\<close> (\<open>0 < d\<close>): the nearest double, ties to
  the even significand, an infinity from \<open>2 ^ 1024\<close> on. The significand has 53 bits,
  the least exponent of the last bit is \<open>-1074\<close>.
\<close>

definition to_double :: "int \<Rightarrow> int \<Rightarrow> jsnum" where
  "to_double n d =
     (if n = 0 then Integral 0
      else
        let a = \<bar>n\<bar>;
            e = max (binary_exponent a d - 52) (- 1074);
            m = (if e < 0 then round_half_even (a * 2 ^ nat (- e)) d
                 else round_half_even a (d * 2 ^ nat e))
        in if 971 < e \<or> (e = 971 \<and> 2 ^ 53 \<le> m)
           then (if n < 0 then NegInfinity else PosInfinity)
           else if e < 0 then reduce (sgn n * m) (nat (- e))
           else Integral (sgn n * m * 2 ^ nat e))"

definition isNaN :: "jsnum \<Rightarrow> bool" where
  "isNaN x = (x = NaN)"

text \<open>\<open>k * x\<close> for an array index \<open>k\<close> (a non-negative integer below \<open>2 ^ 32\<close>).\<close>

fun js_times :: "nat \<Rightarrow> jsnum \<Rightarrow> jsnum" where
  "js_times k NaN = NaN"
| "js_times k PosInfinity = (if k = 0 then NaN else PosInfinity)"
| "js_times k NegInfinity = (if k = 0 then NaN else NegInfinity)"
| "js_times k (Integral n) = to_double (int k * n) 1"
| "js_times k (Dyadic m j) = to_double (int k * m) (2 ^ j)"

text \<open>\<open>x / d\<close> and \<open>x % d\<close> for a positive integer constant \<open>d\<close> (60 in the component).\<close>

fun js_divide :: "jsnum \<Rightarrow> int \<Rightarrow> jsnum" where
  "js_divide NaN d = NaN"
| "js_divide PosInfinity d = PosInfinity"
| "js_divide NegInfinity d = NegInfinity"
| "js_divide (Integral n) d = to_double n d"
| "js_divide (Dyadic m j) d = to_double m (d * 2 ^ j)"

text \<open>The remainder has the sign of the dividend and is exact.\<close>

fun js_remainder :: "jsnum \<Rightarrow> int \<Rightarrow> jsnum" where
  "js_remainder NaN d = NaN"
| "js_remainder PosInfinity d = NaN"
| "js_remainder NegInfinity d = NaN"
| "js_remainder (Integral n) d = Integral (sgn n * (\<bar>n\<bar> mod d))"
| "js_remainder (Dyadic m j) d = reduce (sgn m * (\<bar>m\<bar> mod (d * 2 ^ j))) j"

fun Math_floor :: "jsnum \<Rightarrow> jsnum" where
  "Math_floor (Dyadic m j) = Integral (m div 2 ^ j)"
| "Math_floor x = x"

text \<open>Truthiness of a number and of a possibly-undefined string.\<close>

definition truthy_num :: "jsnum \<Rightarrow> bool" where
  "truthy_num x = (x \<noteq> NaN \<and> x \<noteq> Integral 0)"

definition truthy_str :: "string option \<Rightarrow> bool" where
  "truthy_str v = (case v of None \<Rightarrow> False | Some s \<Rightarrow> s \<noteq> [])"

subsection \<open>Strings and numbers\<close>

text \<open>
  The white space and line terminator code units below U+0100, which \<open>parseInt\<close> and
  \<open>parseFloat\<close> skip at the start of their argument: TAB, LF, VT, FF, CR, SP, NBSP.
\<close>

definition is_space :: "char \<Rightarrow> bool" where
  "is_space c = (of_char c \<in> {9, 10, 11, 12, 13, 32, 160 :: nat})"

definition is_digit :: "char \<Rightarrow> bool" where
  "is_digit c = (48 \<le> (of_char c :: nat) \<and> (of_char c :: nat) \<le> 57)"

definition digit_value :: "char \<Rightarrow> int" where
  "digit_value c = int (of_char c) - 48"

text \<open>The integer a string of decimal digits denotes; the empty string denotes 0.\<close>

definition digits_value :: "string \<Rightarrow> int" where
  "digits_value ds = foldl (\<lambda>n c. 10 * n + digit_value c) 0 ds"

text \<open>A leading sign: whether it is a minus, and the rest of the string.\<close>

fun take_sign :: "string \<Rightarrow> bool \<times> string" where
  "take_sign [] = (False, [])"
| "take_sign (c # cs) =
     (if c = CHR ''-'' then (True, cs) else if c = CHR ''+'' then (False, cs) else (False, c # cs))"

text \<open>
  \<open>parseInt(v, 10)\<close>. An undefined argument is converted to the string
  \<open>undefined\<close> first, as \<open>ToString\<close> does. Leading white space is dropped, a sign is
  read, and the longest run of decimal digits that follows is the integer; with no digit
  there the result is NaN. Whatever follows the digits is ignored.
\<close>

definition parseInt :: "string option \<Rightarrow> jsnum" where
  "parseInt v =
     (let inputString = (case v of None \<Rightarrow> ''undefined'' | Some s \<Rightarrow> s);
          (neg, S) = take_sign (dropWhile is_space inputString);
          Z = takeWhile is_digit S
      in if Z = [] then NaN
         else to_double ((if neg then - 1 else 1) * digits_value Z) 1)"

text \<open>
  The exponent part of a decimal literal, if the string starts with one: \<open>e\<close> or \<open>E\<close>,
  an optional sign and at least one digit. Without one the exponent is 0.
\<close>

definition exponent_part :: "string \<Rightarrow> int" where
  "exponent_part s =
     (case s of
        [] \<Rightarrow> 0
      | c # cs \<Rightarrow>
          if c = CHR ''e'' \<or> c = CHR ''E'' then
            (let (neg, r) = take_sign cs; ds = takeWhile is_digit r
             in if ds = [] then 0 else (if neg then - 1 else 1) * digits_value ds)
          else 0)"

text \<open>
  \<open>parseFloat(s)\<close>: leading white space is dropped and the longest prefix that is a
  \<open>StrDecimalLiteral\<close> is read: a sign, then \<open>Infinity\<close> or digits with an optional
  fraction and exponent. With no such prefix the result is NaN.
\<close>

definition parseFloat :: "string \<Rightarrow> jsnum" where
  "parseFloat s =
     (let (neg, r) = take_sign (dropWhile is_space s)
      in if take 8 r = ''Infinity'' then (if neg then NegInfinity else PosInfinity)
         else
           let ip = takeWhile is_digit r;
               r1 = dropWhile is_digit r;
               dot = (r1 \<noteq> [] \<and> hd r1 = CHR ''.'');
               fp = (if dot then takeWhile is_digit (tl r1) else []);
               r2 = (if dot then dropWhile is_digit (tl r1) else r1);
               x = exponent_part r2 - int (length fp);
               M = (if neg then - 1 else 1) * digits_value (ip @ fp)
           in if ip = [] \<and> fp = [] then NaN
              else if 0 \<le> x then to_double (M * 10 ^ nat x) 1
              else to_double M (10 ^ nat (- x)))"

text \<open>The decimal digits of a non-negative integer.\<close>

fun show_nat :: "nat \<Rightarrow> string" where
  "show_nat n =
     (if n < 10 then [''0123456789'' ! n]
      else show_nat (n div 10) @ [''0123456789'' ! (n mod 10)])"

declare show_nat.simps [simp del]

text \<open>
  \<open>Number::toString\<close> of a positive finite double \<open>p / q\<close>. The digits are the
  shortest decimal \<open>s\<close> of \<open>k\<close> digits with \<open>s * 10 ^ (n - k)\<close> rounding back to the
  double; of two such decimals the one nearer to the double is taken. \<open>decimal_point\<close>
  is \<open>n\<close>: \<open>10 ^ (n - 1) \<le> p / q < 10 ^ n\<close>.
\<close>

fun decimal_length :: "int \<Rightarrow> nat" where
  "decimal_length n = (if n \<le> 0 then 0 else Suc (decimal_length (n div 10)))"

declare decimal_length.simps [simp del]

definition decimal_point :: "int \<Rightarrow> int \<Rightarrow> int" where
  "decimal_point p q =
     (let c = int (decimal_length p) - int (decimal_length q)
      in if (if 0 \<le> c then q * 10 ^ nat c \<le> p else q \<le> p * 10 ^ nat (- c)) then c + 1 else c)"

text \<open>\<open>s * 10 ^ x\<close> as a double.\<close>

definition decimal_to_double :: "int \<Rightarrow> int \<Rightarrow> jsnum" where
  "decimal_to_double s x = (if 0 \<le> x then to_double (s * 10 ^ nat x) 1 else to_double s (10 ^ nat (- x)))"

text \<open>
  The \<open>k\<close>-digit decimal for \<open>p / q\<close>, if there is one: the two \<open>k\<close>-digit decimals
  around \<open>p / q\<close> are tried.
\<close>

definition digits_of_length :: "int \<Rightarrow> int \<Rightarrow> int \<Rightarrow> nat \<Rightarrow> int option" where
  "digits_of_length p q n k =
     (let x = n - int k;
          num = (if 0 \<le> x then p else p * 10 ^ nat (- x));
          den = (if 0 \<le> x then q * 10 ^ nat x else q);
          lo = num div den;
          r = num mod den;
          ok_lo = (decimal_to_double lo x = to_double p q);
          ok_hi = (decimal_to_double (lo + 1) x = to_double p q)
      in if ok_lo \<and> ok_hi then
           Some (if 2 * r < den then lo else if den < 2 * r then lo + 1
                 else if even lo then lo else lo + 1)
         else if ok_lo then Some lo
         else if ok_hi then Some (lo + 1)
         else None)"

text \<open>
  The shortest digits and their decimal point. Seventeen digits determine any double, so
  the search ends by \<open>k = 17\<close>; the last equation keeps the function total.
\<close>

fun shortest_digits :: "int \<Rightarrow> int \<Rightarrow> int \<Rightarrow> nat \<Rightarrow> nat \<Rightarrow> int \<times> nat \<times> int" where
  "shortest_digits p q n k 0 = (p div q, k, n)"
| "shortest_digits p q n k (Suc fuel) =
     (case digits_of_length p q n k of
        Some s \<Rightarrow> (if s = 10 ^ k then (10 ^ (k - 1), k, n + 1) else (s, k, n))
      | None \<Rightarrow> shortest_digits p q n (Suc k) fuel)"

definition show_positive :: "int \<Rightarrow> int \<Rightarrow> string" where
  "show_positive p q =
     (let (s, k, n) = shortest_digits p q (decimal_point p q) 1 17;
          ds = show_nat (nat s)
      in if - 5 \<le> n \<and> n \<le> 21 then
           (if int k \<le> n then ds @ replicate (nat (n - int k)) CHR ''0''
            else if 0 < n then take (nat n) ds @ ''.'' @ drop (nat n) ds
            else ''0.'' @ replicate (nat (- n)) CHR ''0'' @ ds)
         else
           (let ex = (if 0 < n - 1 then ''+'' else ''-'') @ show_nat (nat \<bar>n - 1\<bar>)
            in if k = 1 then ds @ ''e'' @ ex
               else take 1 ds @ ''.'' @ drop 1 ds @ ''e'' @ ex))"

text \<open>
  \<open>String(x)\<close>, which is also what a template literal puts for \<open>${x}\<close>. An integer of
  magnitude up to \<open>2 ^ 53\<close> prints as its own decimal digits: its neighbours among the
  doubles are at most 1 away, so no shorter decimal rounds to it.
\<close>

fun String_num :: "jsnum \<Rightarrow> string" where
  "String_num NaN = ''NaN''"
| "String_num PosInfinity = ''Infinity''"
| "String_num NegInfinity = ''-Infinity''"
| "String_num (Integral n) =
     (if \<bar>n\<bar> \<le> 2 ^ 53 then (if n < 0 then ''-'' else []) @ show_nat (nat \<bar>n\<bar>)
      else (if n < 0 then ''-'' else []) @ show_positive \<bar>n\<bar> 1)"
| "String_num (Dyadic m j) = (if m < 0 then ''-'' else []) @ show_positive \<bar>m\<bar> (2 ^ j)"

text \<open>\<open>s.slice(a, b)\<close> for \<open>0 \<le> a \<le> b\<close>, and \<open>s.padStart(2, "0")\<close>.\<close>

definition slice :: "string \<Rightarrow> nat \<Rightarrow> nat \<Rightarrow> string" where
  "slice s a b = take (b - a) (drop a s)"

definition padStart2 :: "string \<Rightarrow> string" where
  "padStart2 s = replicate (2 - length s) CHR ''0'' @ s"

section \<open>The Generator component\<close>

text \<open>One emitted output unit (\<open>interface MeterReading\<close>).\<close>

record MeterReading =
  nmi :: string
  timestamp :: string
  consumption :: jsnum

text \<open>
  The two locals of \<open>handleFileChange\<close> that the chunk callback closes over.
  \<open>currentNMI\<close> is assigned \<open>row[1]\<close>, which is \<open>undefined\<close> for a row of one field.
\<close>

record parser_vars =
  currentNMI :: "string option"
  intervalLength :: jsnum

text \<open>
  What \<open>Papa.parse\<close> does with the configuration it is given: it calls \<open>chunk\<close> with a
  batch of rows, \<open>complete\<close>, or \<open>error\<close> with an Error carrying a message. A selected
  File is represented by the sequence of these calls that parsing it makes.
\<close>

datatype papa_event = Chunk "string list list" | Complete | Error string

text \<open>The component's state (its \<open>useState\<close> cells).\<close>

record generator_state =
  records :: "MeterReading list"
  loading :: bool
  completed :: bool
  error :: "string option"
  "file" :: "papa_event list option"

text \<open>\<open>dateStr.slice\<close> on an undefined \<open>dateStr\<close> throws.\<close>

datatype js_error = TypeError

text \<open>\<open>row[i]\<close>: \<open>undefined\<close> past the end of the row.\<close>

definition field :: "string list \<Rightarrow> nat \<Rightarrow> string option" where
  "field row i = (if i < length row then Some (row ! i) else None)"

definition datePrefix :: "string \<Rightarrow> string" where
  "datePrefix dateStr = slice dateStr 0 4 @ ''-'' @ slice dateStr 4 6 @ ''-'' @ slice dateStr 6 8"

text \<open>
  The loop over the consumption values of a row, \<open>for (let i = 2; i < row.length; i++)\<close>.
  \<open>recs\<close> is the list that \<open>setRecords\<close> appends to.

  The record is built when \<open>setRecords\<close> is called, with the value that \<open>currentNMI\<close>
  has then. The source gives \<open>setRecords\<close> an updater, which reads \<open>currentNMI\<close> when
  React runs it: the \<open>nmi\<close> of the record is the one built here when the updater runs
  before a later \<open>"200"\<close> row assigns \<open>currentNMI\<close>. The timestamp and the consumption
  are constants of the iteration and do not depend on when the updater runs.
\<close>

function for_loop :: "string \<Rightarrow> jsnum \<Rightarrow> string \<Rightarrow> string list \<Rightarrow> nat \<Rightarrow> MeterReading list \<Rightarrow> MeterReading list" where
  "for_loop cur len prefix row i recs =
     (if i < length row then
        (let consumption = parseFloat (row ! i)
         in if \<not> isNaN consumption then
              (let totalMinutesOffset = js_times (i - 2) len;
                   intervalHours = Math_floor (js_divide totalMinutesOffset 60);
                   intervalMinutes = js_remainder totalMinutesOffset 60;
                   ts = prefix @ '' '' @ padStart2 (String_num intervalHours) @ '':''
                          @ padStart2 (String_num intervalMinutes) @ '':00''
               in for_loop cur len prefix row (Suc i)
                    (recs @ [\<lparr>nmi = cur, timestamp = ts, consumption = consumption\<rparr>]))
            else for_loop cur len prefix row (Suc i) recs)
      else recs)"
  by pat_completeness auto
termination
  by (relation "measure (\<lambda>(cur, len, prefix, row, i, recs). length row - i)") auto

declare for_loop.simps [simp del]

text \<open>
  The body of \<open>chunkRows.forEach\<close> for one row: the \<open>"200"\<close> branch, then the
  \<open>"300"\<close> branch. The result is the new locals and records, or the exception thrown.
\<close>

definition on_row :: "parser_vars \<Rightarrow> MeterReading list \<Rightarrow> string list \<Rightarrow> js_error + (parser_vars \<times> MeterReading list)" where
  "on_row v recs row =
     (let v1 = (if field row 0 = Some ''200''
                then \<lparr>currentNMI = field row 1, intervalLength = parseInt (field row 8)\<rparr>
                else v)
      in if field row 0 = Some ''300'' \<and> truthy_str (currentNMI v1) \<and> truthy_num (intervalLength v1)
         then (case field row 1 of
                 None \<Rightarrow> Inl TypeError
               | Some dateStr \<Rightarrow>
                   Inr (v1, for_loop (the (currentNMI v1)) (intervalLength v1) (datePrefix dateStr) row 2 recs))
         else Inr (v1, recs))"

text \<open>
  \<open>chunkRows.forEach\<close>: the rows in order. An exception leaves the loop; what was
  assigned and appended before it stays.
\<close>

fun forEach :: "parser_vars \<Rightarrow> MeterReading list \<Rightarrow> string list list \<Rightarrow> (parser_vars \<times> MeterReading list) \<times> js_error option" where
  "forEach v recs [] = ((v, recs), None)"
| "forEach v recs (row # rows) =
     (case on_row v recs row of
        Inl e \<Rightarrow> ((v, recs), Some e)
      | Inr (v', recs') \<Rightarrow> forEach v' recs' rows)"

definition complete_callback :: "generator_state \<Rightarrow> generator_state" where
  "complete_callback st = st\<lparr>loading := False, completed := True\<rparr>"

definition error_callback :: "generator_state \<Rightarrow> string \<Rightarrow> generator_state" where
  "error_callback st message = st\<lparr>error := Some (''Error parsing CSV file: '' @ message), loading := False\<rparr>"

text \<open>
  The callbacks of one parse run, in the order \<open>Papa.parse\<close> makes them. The run is
  followed up to the first exception that leaves a callback.
\<close>

fun deliver :: "parser_vars \<Rightarrow> generator_state \<Rightarrow> papa_event list \<Rightarrow> generator_state \<times> js_error option" where
  "deliver v st [] = (st, None)"
| "deliver v st (Chunk chunkRows # evs) =
     (case forEach v (records st) chunkRows of
        ((v', recs), None) \<Rightarrow> deliver v' (st\<lparr>records := recs\<rparr>) evs
      | ((v', recs), Some e) \<Rightarrow> (st\<lparr>records := recs\<rparr>, Some e))"
| "deliver v st (Complete # evs) = deliver v (complete_callback st) evs"
| "deliver v st (Error message # evs) = deliver v (error_callback st message) evs"

text \<open>The locals as \<open>handleFileChange\<close> initialises them.\<close>

definition initial_vars :: parser_vars where
  "initial_vars = \<lparr>currentNMI = Some [], intervalLength = Integral 0\<rparr>"

definition handleFileChange :: "generator_state \<Rightarrow> generator_state \<times> js_error option" where
  "handleFileChange st =
     (case file st of
        None \<Rightarrow> (st, None)
      | Some evs \<Rightarrow> deliver initial_vars (st\<lparr>error := None, loading := True\<rparr>) evs)"

text \<open>The state of a freshly rendered component.\<close>

definition initial_state :: generator_state where
  "initial_state = \<lparr>records = [], loading = False, completed = False, error = None, file = None\<rparr>"

text \<open>One generated statement, and \<open>generatedSql.join("\n")\<close>.\<close>

definition insert_statement :: "MeterReading \<Rightarrow> string" where
  \<open>insert_statement record =
     ''INSERT INTO meter_readings (nmi, "timestamp", consumption) VALUES ('' @ [CHR 0x27]
       @ nmi record @ [CHR 0x27] @ '', '' @ [CHR 0x27] @ timestamp record @ [CHR 0x27] @ '', ''
       @ String_num (consumption record) @ '');''\<close>

fun join :: "string list \<Rightarrow> string \<Rightarrow> string" where
  "join [] sep = []"
| "join [x] sep = x"
| "join (x # y # ys) sep = x @ sep @ join (y # ys) sep"

text \<open>The array \<open>generatedSql\<close> of \<open>onCopy\<close>: \<open>records.map\<close> of the statement.\<close>

definition generatedSql :: "MeterReading list \<Rightarrow> string list" where
  "generatedSql recs = map insert_statement recs"

text \<open>
  \<open>onCopy\<close>: the clipboard text before and after. Nothing is written unless
  \<open>completed\<close> is set.
\<close>

definition onCopy :: "generator_state \<Rightarrow> string option \<Rightarrow> string option" where
  "onCopy st clipboard =
     (if completed st then Some (join (generatedSql (records st)) [CHR 0x0A]) else clipboard)"

section \<open>Notions used to state the properties\<close>

text \<open>
  The timestamp that the loop computes for the consumption field at interval index \<open>k\<close>
  (the loop variable is \<open>k + 2\<close>), and the record, if any, that the loop appends for a
  field \<open>f\<close> at that index.
\<close>

definition interval_timestamp :: "string \<Rightarrow> jsnum \<Rightarrow> nat \<Rightarrow> string" where
  "interval_timestamp prefix len k =
     prefix @ '' '' @ padStart2 (String_num (Math_floor (js_divide (js_times k len) 60))) @ '':''
       @ padStart2 (String_num (js_remainder (js_times k len) 60)) @ '':00''"

definition reading :: "string \<Rightarrow> jsnum \<Rightarrow> string \<Rightarrow> nat \<Rightarrow> string \<Rightarrow> MeterReading option" where
  "reading cur len prefix k f =
     (if isNaN (parseFloat f) then None
      else Some \<lparr>nmi = cur, timestamp = interval_timestamp prefix len k, consumption = parseFloat f\<rparr>)"

text \<open>A non-negative integer in decimal, zero-padded to two digits.\<close>

definition two_digits :: "int \<Rightarrow> string" where
  "two_digits n = padStart2 (show_nat (nat n))"

text \<open>\<open>Number.isFinite\<close>: neither NaN nor an infinity.\<close>

fun is_finite :: "jsnum \<Rightarrow> bool" where
  "is_finite (Integral n) = True"
| "is_finite (Dyadic m k) = True"
| "is_finite x = False"

section \<open>Facts about the number model\<close>

subsection \<open>Rounding of small integers\<close>

lemma bit_length_nonpos: "n \<le> 0 \<Longrightarrow> bit_length n = 0"
  by (simp add: bit_length.simps [of n])

lemma bit_length_Suc: "0 < n \<Longrightarrow> bit_length n = Suc (bit_length (n div 2))"
  by (simp add: bit_length.simps [of n])

lemma bit_length_pos: "0 < n \<Longrightarrow> 2 ^ (bit_length n - 1) \<le> n"
proof (induction n rule: bit_length.induct)
  case (1 n)
  show ?case
  proof (cases "n div 2 \<le> 0")
    case True
    with "1.prems" have "bit_length n = 1"
      by (simp add: bit_length_Suc bit_length_nonpos)
    with "1.prems" show ?thesis by simp
  next
    case False
    then have pos: "0 < n div 2" by simp
    with "1.IH" "1.prems" have ih: "2 ^ (bit_length (n div 2) - 1) \<le> n div 2" by simp
    have bl: "bit_length n = Suc (bit_length (n div 2))"
      using "1.prems" by (simp add: bit_length.simps [of n])
    have "0 < bit_length (n div 2)"
      using pos by (simp add: bit_length.simps [of "n div 2"])
    then have "(2::int) ^ (bit_length n - 1) = 2 * 2 ^ (bit_length (n div 2) - 1)"
      using bl by (cases "bit_length (n div 2)") simp_all
    also have "\<dots> \<le> 2 * (n div 2)" using ih by simp
    also have "\<dots> \<le> n" by simp
    finally show ?thesis .
  qed
qed

lemma bit_length_le: "n < 2 ^ j \<Longrightarrow> bit_length n \<le> j"
proof (induction n arbitrary: j rule: bit_length.induct)
  case (1 n)
  show ?case
  proof (cases "n \<le> 0")
    case True
    then show ?thesis by (simp add: bit_length.simps [of n])
  next
    case False
    then have bl: "bit_length n = Suc (bit_length (n div 2))"
      by (simp add: bit_length.simps [of n])
    from False "1.prems" obtain i where j: "j = Suc i"
      by (cases j) auto
    with "1.prems" have "n div 2 < 2 ^ i" by auto
    with "1.IH" False have "bit_length (n div 2) \<le> i" by simp
    with bl j show ?thesis by simp
  qed
qed

lemma bit_length_60: "bit_length 60 = 6"
  by (simp add: bit_length_Suc bit_length_nonpos)

lemma reduce_shift: "reduce (n * 2 ^ k) k = Integral n"
  by (induction k) simp_all

lemma Math_floor_reduce: "Math_floor (reduce m k) = Integral (m div 2 ^ k)"
proof (induction k arbitrary: m)
  case 0
  show ?case by simp
next
  case (Suc k)
  show ?case
  proof (cases "even m")
    case True
    have "m div 2 div 2 ^ k = m div (2 * 2 ^ k)"
      by (simp add: zdiv_zmult2_eq)
    with True Suc show ?thesis by simp
  next
    case False
    then show ?thesis by simp
  qed
qed

lemma reduce_not_NaN: "reduce m k \<noteq> NaN"
  by (induction k arbitrary: m) simp_all

lemma round_half_even_one: "round_half_even n 1 = n"
  by (simp add: round_half_even_def)

lemma round_half_even_bounds:
  assumes "0 < d"
  shows "n div d \<le> round_half_even n d"
    and "round_half_even n d \<le> n div d + 1"
    and "round_half_even n d = n div d + 1 \<Longrightarrow> d \<le> 2 * (n mod d)"
  using assms by (auto simp: round_half_even_def Let_def split: if_splits)

text \<open>An integer below \<open>2 ^ 53\<close> is a double.\<close>

lemma to_double_exact:
  assumes "0 \<le> n" "n < 2 ^ 53"
  shows "to_double n 1 = Integral n"
proof (cases "n = 0")
  case True
  then show ?thesis by (simp add: to_double_def)
next
  case False
  with assms have pos: "0 < n" by simp
  have one: "bit_length 1 = 1"
    by (simp add: bit_length.simps [of 1] bit_length.simps [of 0])
  have le: "bit_length n \<le> 53" using assms(2) by (rule bit_length_le)
  have ge: "1 \<le> bit_length n" using pos by (simp add: bit_length.simps [of n])
  have "2 ^ (bit_length n - 1) \<le> n" using pos by (rule bit_length_pos)
  moreover have "nat (int (bit_length n) - 1) = bit_length n - 1" using ge by simp
  ultimately have be: "binary_exponent n 1 = int (bit_length n) - 1"
    using ge by (simp add: binary_exponent_def one)
  define e where "e = max (int (bit_length n) - 1 - 52) (- 1074)"
  have e0: "e \<le> 0" using le by (simp add: e_def)
  have e1: "- 1074 \<le> e" by (simp add: e_def)
  show ?thesis
  proof (cases "e < 0")
    case True
    then show ?thesis
      using pos be e_def [symmetric] e1
      by (simp add: to_double_def Let_def round_half_even_one reduce_shift)
  next
    case False
    with e0 have "e = 0" by simp
    then show ?thesis
      using pos be e_def [symmetric]
      by (simp add: to_double_def Let_def round_half_even_one)
  qed
qed

lemma to_double_not_NaN: "to_double n d \<noteq> NaN"
  by (simp add: to_double_def Let_def reduce_not_NaN)

subsection \<open>Hours and minutes of an offset below \<open>2 ^ 53\<close>\<close>

text \<open>
  The quotient \<open>t / 60\<close> is rounded to a double before \<open>Math.floor\<close> sees it. Below
  \<open>2 ^ 53\<close> the rounding error is less than \<open>1 / 60\<close>, so the floor is that of the
  exact quotient.
\<close>

lemma round_scaled_div:
  fixes t :: int
  assumes t: "0 \<le> t" and k: "5 \<le> k"
  shows "round_half_even (t * 2 ^ k) 60 div 2 ^ k = t div 60"
proof -
  define P :: int where "P = 2 ^ k"
  define A where "A = (t div 60) * P"
  define B where "B = (t mod 60) * P"
  define N where "N = t * P"
  define D where "D = N div 60"
  define R where "R = N mod 60"
  define m where "m = round_half_even N 60"
  have "(2::int) ^ 5 \<le> 2 ^ k" using k by (intro power_increasing) simp_all
  then have P: "32 \<le> P" by (simp add: P_def)
  have "t * P = (60 * (t div 60) + t mod 60) * P" by simp
  also have "\<dots> = 60 * A + B" unfolding A_def B_def by (simp only: algebra_simps)
  finally have NAB: "N = 60 * A + B" by (simp only: N_def)
  have "0 \<le> t mod 60" "t mod 60 \<le> 59" by simp_all
  with P have B: "0 \<le> B" "B \<le> 59 * P"
    unfolding B_def by (simp_all add: mult_right_mono)
  have NDR: "N = 60 * D + R" by (simp add: D_def R_def)
  have R: "0 \<le> R" "R < 60" by (simp_all add: R_def)
  have lo: "D \<le> m" and hi: "m \<le> D + 1"
    and up: "m = D + 1 \<Longrightarrow> 60 \<le> 2 * R"
    unfolding m_def D_def R_def by (rule round_half_even_bounds, simp)+
  have ge: "A \<le> m" using lo NDR R NAB B by linarith
  have lt: "m < A + P"
  proof (cases "m = D + 1")
    case True
    with up have "60 \<le> 2 * R" by simp
    with NDR R NAB B P True show ?thesis by linarith
  next
    case False
    with hi lo have "m = D" by simp
    with NDR R NAB B P show ?thesis by linarith
  qed
  have "0 < P" using P by simp
  have "m div P = ((m - A) + t div 60 * P) div P" by (simp add: A_def)
  also have "\<dots> = t div 60 + (m - A) div P" using \<open>0 < P\<close> by simp
  also have "(m - A) div P = 0" using ge lt by (intro div_pos_pos_trivial) simp_all
  finally have "m div P = t div 60" by simp
  then show ?thesis by (simp add: m_def N_def P_def)
qed

lemma floor_divide_60:
  assumes "0 \<le> t" "t < 2 ^ 53"
  shows "Math_floor (js_divide (Integral t) 60) = Integral (t div 60)"
proof (cases "t = 0")
  case True
  then show ?thesis by (simp add: to_double_def)
next
  case False
  with assms have pos: "0 < t" by simp
  have "bit_length t \<le> 53" using assms(2) by (rule bit_length_le)
  then have "binary_exponent t 60 \<le> 47"
    by (simp add: binary_exponent_def Let_def bit_length_60)
  define e where "e = max (binary_exponent t 60 - 52) (- 1074)"
  have e: "e \<le> - 5" "- 1074 \<le> e"
    using \<open>binary_exponent t 60 \<le> 47\<close> by (simp_all add: e_def)
  then have k: "5 \<le> nat (- e)" by simp
  have "to_double t 60 = reduce (round_half_even (t * 2 ^ nat (- e)) 60) (nat (- e))"
    using pos e e_def [symmetric] by (simp add: to_double_def Let_def)
  then show ?thesis
    using round_scaled_div [OF assms(1) k] by (simp add: Math_floor_reduce)
qed

lemma remainder_60: "0 \<le> t \<Longrightarrow> js_remainder (Integral t) 60 = Integral (t mod 60)"
  by (cases "t = 0") simp_all

lemma String_num_small: "0 \<le> h \<Longrightarrow> h \<le> 2 ^ 53 \<Longrightarrow> String_num (Integral h) = show_nat (nat h)"
  by simp

lemma show_nat_length: "10 \<le> n \<Longrightarrow> 2 \<le> length (show_nat n)"
  by (subst show_nat.simps) (simp add: show_nat.simps [of "n div 10"])

lemma padStart2_long: "2 \<le> length s \<Longrightarrow> padStart2 s = s"
  by (simp add: padStart2_def)

lemma interval_timestamp_exact:
  assumes "0 \<le> L" "int k * L < 2 ^ 53"
  shows "interval_timestamp prefix (Integral L) k =
           prefix @ '' '' @ two_digits (int k * L div 60) @ '':'' @ two_digits (int k * L mod 60) @ '':00''"
proof -
  define t where "t = int k * L"
  have t: "0 \<le> t" "t < 2 ^ 53" using assms by (simp_all add: t_def)
  have times: "js_times k (Integral L) = Integral t"
    using t by (simp add: t_def to_double_exact)
  have "t = 60 * (t div 60) + t mod 60" "0 \<le> t mod 60" by simp_all
  moreover have "0 \<le> t div 60" using t by (simp add: div_int_pos_iff)
  ultimately have "0 \<le> t div 60" "t div 60 \<le> t" by linarith+
  then have h: "0 \<le> t div 60" "t div 60 \<le> 2 ^ 53" using t by simp_all
  have m: "0 \<le> t mod 60" "t mod 60 \<le> 2 ^ 53"
  proof -
    show "0 \<le> t mod 60" by simp
    have "t mod 60 < 60" by simp
    then show "t mod 60 \<le> 2 ^ 53" by simp
  qed
  have hours: "String_num (Math_floor (js_divide (Integral t) 60)) = show_nat (nat (t div 60))"
    unfolding floor_divide_60 [OF t] using h by simp
  have minutes: "String_num (js_remainder (Integral t) 60) = show_nat (nat (t mod 60))"
    unfolding remainder_60 [OF t(1)] using m by simp
  show ?thesis
    unfolding interval_timestamp_def times two_digits_def t_def [symmetric]
    by (simp only: hours minutes)
qed

lemma reading_exact:
  assumes "0 \<le> L" "int k * L < 2 ^ 53"
  shows "reading cur (Integral L) prefix k f =
           (if isNaN (parseFloat f) then None
            else Some \<lparr>nmi = cur,
                       timestamp = prefix @ '' '' @ two_digits (int k * L div 60) @ '':''
                                     @ two_digits (int k * L mod 60) @ '':00'',
                       consumption = parseFloat f\<rparr>)"
  by (simp add: reading_def interval_timestamp_exact [OF assms])

subsection \<open>\<open>parseInt\<close>\<close>

lemma is_digit_plain:
  assumes "is_digit c"
  shows "\<not> is_space c" "c \<noteq> CHR ''-''" "c \<noteq> CHR ''+''"
  using assms by (auto simp: is_digit_def is_space_def)

lemma digits_value_nonneg_aux:
  "(\<forall>c \<in> set ds. is_digit c) \<Longrightarrow> 0 \<le> n \<Longrightarrow> 0 \<le> foldl (\<lambda>n c. 10 * n + digit_value c) n ds"
proof (induction ds arbitrary: n)
  case Nil
  then show ?case by simp
next
  case (Cons c ds)
  then have "0 \<le> digit_value c" by (simp add: is_digit_def digit_value_def)
  with Cons.prems have "0 \<le> 10 * n + digit_value c" by simp
  with Cons show ?case by simp
qed

lemma digits_value_nonneg: "(\<forall>c \<in> set ds. is_digit c) \<Longrightarrow> 0 \<le> digits_value ds"
  by (simp add: digits_value_def digits_value_nonneg_aux)

lemma parseInt_digits:
  assumes "ds \<noteq> []" "\<forall>c \<in> set ds. is_digit c" "digits_value ds < 2 ^ 53"
  shows "parseInt (Some ds) = Integral (digits_value ds)"
proof -
  obtain c cs where ds: "ds = c # cs" using assms(1) by (cases ds) auto
  with assms(2) have c: "is_digit c" by simp
  have "dropWhile is_space ds = ds"
    using ds is_digit_plain(1) [OF c] by simp
  moreover have "take_sign ds = (False, ds)"
    using ds is_digit_plain(2,3) [OF c] by simp
  ultimately show ?thesis
    using assms digits_value_nonneg [OF assms(2)]
    by (simp add: parseInt_def Let_def to_double_exact takeWhile_eq_all_conv [THEN iffD2])
qed

lemma parseInt_NaN_iff:
  "parseInt x = NaN \<longleftrightarrow>
     takeWhile is_digit (snd (take_sign (dropWhile is_space (case x of None \<Rightarrow> ''undefined'' | Some s \<Rightarrow> s)))) = []"
  by (simp add: parseInt_def Let_def to_double_not_NaN split: prod.splits)

section \<open>Facts about the callbacks\<close>

subsection \<open>The loop over the consumption values\<close>

lemma map_filter_map: "List.map_filter f (map g xs) = List.map_filter (f \<circ> g) xs"
  by (induction xs) (simp_all split: option.splits)

lemma map_map_filter: "map g (List.map_filter f xs) = List.map_filter (map_option g \<circ> f) xs"
  by (induction xs) (simp_all split: option.splits)

lemma map_filter_cong_set: "(\<And>x. x \<in> set xs \<Longrightarrow> f x = g x) \<Longrightarrow> List.map_filter f xs = List.map_filter g xs"
  by (induction xs) (simp_all split: option.splits)

lemma set_map_filter: "y \<in> set (List.map_filter f xs) \<longleftrightarrow> (\<exists>x \<in> set xs. f x = Some y)"
  by (induction xs) (auto split: option.splits)

lemma field_Cons [simp]:
  "field (x # xs) 0 = Some x"
  "field (x # xs) (Suc i) = field xs i"
  "field [] i = None"
  by (simp_all add: field_def)

lemma for_loop_eq:
  "for_loop cur len prefix row i recs =
     recs @ List.map_filter (\<lambda>j. reading cur len prefix (j - 2) (row ! j)) [i..<length row]"
proof (induction "length row - i" arbitrary: i recs)
  case 0
  then show ?case by (simp add: for_loop.simps [of _ _ _ _ i])
next
  case (Suc n)
  then have i: "i < length row" and n: "n = length row - Suc i" by simp_all
  show ?case
    using i Suc.hyps(1) [OF n]
    by (simp add: for_loop.simps [of _ _ _ _ i] upt_conv_Cons reading_def interval_timestamp_def Let_def)
qed

lemma map_filter_reading_facts:
  "length (List.map_filter (\<lambda>k. reading cur len prefix k (vals ! k)) [0..<length vals])
     = length (filter (\<lambda>f. \<not> isNaN (parseFloat f)) vals)"
  "map consumption (List.map_filter (\<lambda>k. reading cur len prefix k (vals ! k)) [0..<length vals])
     = filter (\<lambda>x. \<not> isNaN x) (map parseFloat vals)"
proof -
  let ?P = "\<lambda>f. \<not> isNaN (parseFloat f)"
  have none: "\<And>k. (reading cur len prefix k (vals ! k) \<noteq> None) = ?P (vals ! k)"
    by (simp add: reading_def)
  have some: "\<And>k. (\<exists>y. reading cur len prefix k (vals ! k) = Some y) = ?P (vals ! k)"
    by (simp add: reading_def)
  have cons: "\<And>k. ?P (vals ! k) \<Longrightarrow> consumption (the (reading cur len prefix k (vals ! k))) = parseFloat (vals ! k)"
    by (simp add: reading_def)
  have idx: "filter ?P vals = map (\<lambda>k. vals ! k) (filter (\<lambda>k. ?P (vals ! k)) [0..<length vals])"
  proof -
    have "filter ?P vals = filter ?P (map (\<lambda>k. vals ! k) [0..<length vals])"
      by (simp only: map_nth)
    also have "\<dots> = map (\<lambda>k. vals ! k) (filter (\<lambda>k. ?P (vals ! k)) [0..<length vals])"
      by (simp add: filter_map comp_def)
    finally show ?thesis .
  qed
  show "length (List.map_filter (\<lambda>k. reading cur len prefix k (vals ! k)) [0..<length vals])
     = length (filter ?P vals)"
    by (simp add: List.map_filter_def none some idx)
  have "map consumption (List.map_filter (\<lambda>k. reading cur len prefix k (vals ! k)) [0..<length vals])
      = map (\<lambda>k. parseFloat (vals ! k)) (filter (\<lambda>k. ?P (vals ! k)) [0..<length vals])"
    by (simp add: List.map_filter_def none some cons)
  also have "\<dots> = map parseFloat (filter ?P vals)"
    by (simp add: idx)
  also have "\<dots> = filter (\<lambda>x. \<not> isNaN x) (map parseFloat vals)"
    by (simp add: filter_map comp_def)
  finally show "map consumption (List.map_filter (\<lambda>k. reading cur len prefix k (vals ! k)) [0..<length vals])
     = filter (\<lambda>x. \<not> isNaN x) (map parseFloat vals)" .
qed

subsection \<open>One row\<close>

lemma truthy_str_Some: "truthy_str c \<Longrightarrow> \<exists>s. c = Some s \<and> s \<noteq> []"
  by (cases c) (simp_all add: truthy_str_def)

lemma on_row_200:
  assumes "field row 0 = Some ''200''"
  shows "on_row v recs row =
           Inr (\<lparr>currentNMI = field row 1, intervalLength = parseInt (field row 8)\<rparr>, recs)"
  using assms by (simp add: on_row_def)

lemma on_row_other:
  assumes "field row 0 \<noteq> Some ''200''" "field row 0 \<noteq> Some ''300''"
  shows "on_row v recs row = Inr (v, recs)"
  using assms by (simp add: on_row_def)

lemma on_row_300_dropped:
  assumes "field row 0 = Some ''300''" "\<not> (truthy_str (currentNMI v) \<and> truthy_num (intervalLength v))"
  shows "on_row v recs row = Inr (v, recs)"
  using assms by (auto simp: on_row_def)

lemma on_row_300_eligible:
  assumes "currentNMI v = Some cur" "cur \<noteq> []" "truthy_num (intervalLength v)"
  shows "on_row v recs (''300'' # dateStr # vals) =
           Inr (v, recs @ List.map_filter
                  (\<lambda>k. reading cur (intervalLength v) (datePrefix dateStr) k (vals ! k))
                  [0..<length vals])"
proof -
  have "[2..<length vals + 2] = map (\<lambda>k. k + 2) [0..<length vals]"
    by (simp only: map_add_upt)
  moreover have "length (''300'' # dateStr # vals) = length vals + 2"
    by simp
  ultimately have "[2..<length (''300'' # dateStr # vals)] = map (\<lambda>k. k + 2) [0..<length vals]"
    by (simp only:)
  then show ?thesis
    using assms
    by (simp add: on_row_def truthy_str_def for_loop_eq map_filter_map comp_def del: upt_Suc)
qed

lemma on_row_300_exact:
  assumes "currentNMI v = Some cur" "cur \<noteq> []" "intervalLength v = Integral L" "0 < L"
    and "int (length vals) * L < 2 ^ 53"
  shows "on_row v recs (''300'' # dateStr # vals) =
           Inr (v, recs @ List.map_filter
                  (\<lambda>i. if isNaN (parseFloat (vals ! i)) then None
                       else Some \<lparr>nmi = cur,
                                  timestamp = datePrefix dateStr @ '' '' @ two_digits (int i * L div 60)
                                                @ '':'' @ two_digits (int i * L mod 60) @ '':00'',
                                  consumption = parseFloat (vals ! i)\<rparr>)
                  [0..<length vals])"
proof -
  have truthy: "truthy_num (intervalLength v)"
    using assms(3,4) by (simp add: truthy_num_def)
  have "List.map_filter (\<lambda>k. reading cur (Integral L) (datePrefix dateStr) k (vals ! k)) [0..<length vals]
          = List.map_filter
              (\<lambda>i. if isNaN (parseFloat (vals ! i)) then None
                   else Some \<lparr>nmi = cur,
                              timestamp = datePrefix dateStr @ '' '' @ two_digits (int i * L div 60)
                                            @ '':'' @ two_digits (int i * L mod 60) @ '':00'',
                              consumption = parseFloat (vals ! i)\<rparr>)
              [0..<length vals]"
  proof (rule map_filter_cong_set)
    fix k assume "k \<in> set [0..<length vals]"
    then have "int k \<le> int (length vals)" by simp
    then have "int k * L \<le> int (length vals) * L"
      using assms(4) by (simp add: mult_right_mono)
    with assms(5) have "int k * L < 2 ^ 53" by simp
    with assms(4) show "reading cur (Integral L) (datePrefix dateStr) k (vals ! k)
          = (if isNaN (parseFloat (vals ! k)) then None
             else Some \<lparr>nmi = cur,
                        timestamp = datePrefix dateStr @ '' '' @ two_digits (int k * L div 60)
                                      @ '':'' @ two_digits (int k * L mod 60) @ '':00'',
                        consumption = parseFloat (vals ! k)\<rparr>)"
      by (simp add: reading_exact)
  qed
  then show ?thesis
    using on_row_300_eligible [OF assms(1,2) truthy, of recs dateStr vals] assms(3)
    by simp
qed

text \<open>
  With the gate open, a \<open>"300"\<close> row that has no second field throws: \<open>dateStr\<close> is
  undefined and \<open>dateStr.slice\<close> is a TypeError. It appends nothing.
\<close>

lemma on_row_300_no_date:
  assumes "truthy_str (currentNMI v)" "truthy_num (intervalLength v)"
  shows "on_row v recs [''300''] = Inl TypeError"
  using assms by (simp add: on_row_def)

subsection \<open>Records are only appended\<close>

lemma on_row_append:
  "on_row v recs row =
     (case on_row v [] row of Inl e \<Rightarrow> Inl e | Inr (v', em) \<Rightarrow> Inr (v', recs @ em))"
  by (auto simp: on_row_def Let_def for_loop_eq [of _ _ _ _ _ recs] for_loop_eq [of _ _ _ _ _ "[]"]
      split: option.splits)

lemma forEach_append:
  "forEach v recs rows =
     (case forEach v [] rows of ((v', em), x) \<Rightarrow> ((v', recs @ em), x))"
proof (induction rows arbitrary: v recs)
  case Nil
  show ?case by simp
next
  case (Cons row rows)
  show ?case
  proof (cases "on_row v [] row")
    case (Inl e)
    then show ?thesis by (simp add: on_row_append [of v recs])
  next
    case (Inr p)
    obtain v' em where p: "p = (v', em)" by (cases p)
    show ?thesis
      using Inr p Cons.IH [of v' "recs @ em"] Cons.IH [of v' em]
      by (simp add: on_row_append [of v recs] split: prod.splits)
  qed
qed

lemma complete_callback_records:
  "complete_callback (st\<lparr>records := r\<rparr>) = (complete_callback st)\<lparr>records := r\<rparr>"
  "records (complete_callback st) = records st"
  by (simp_all add: complete_callback_def)

lemma error_callback_records:
  "error_callback (st\<lparr>records := r\<rparr>) m = (error_callback st m)\<lparr>records := r\<rparr>"
  "records (error_callback st m) = records st"
  by (simp_all add: error_callback_def)

lemma deliver_append:
  "deliver v st evs =
     (case deliver v (st\<lparr>records := []\<rparr>) evs of
        (st', x) \<Rightarrow> (st'\<lparr>records := records st @ records st'\<rparr>, x))"
proof (induction evs arbitrary: v st)
  case Nil
  show ?case by simp
next
  case (Cons ev evs)
  show ?case
  proof (cases ev)
    case (Chunk chunkRows)
    obtain v' em x where fe: "forEach v [] chunkRows = ((v', em), x)"
      by (metis prod.exhaust)
    then have fe': "forEach v (records st) chunkRows = ((v', records st @ em), x)"
      by (simp add: forEach_append [of v "records st"])
    show ?thesis
    proof (cases x)
      case None
      show ?thesis
        using Chunk fe fe' None
          Cons.IH [of v' "st\<lparr>records := records st @ em\<rparr>"]
          Cons.IH [of v' "st\<lparr>records := em\<rparr>"]
        by (simp split: prod.splits)
    next
      case (Some e)
      then show ?thesis using Chunk fe fe' by simp
    qed
  next
    case Complete
    show ?thesis
      using Complete Cons.IH [of v "complete_callback st"]
      by (simp add: complete_callback_records)
  next
    case (Error m)
    show ?thesis
      using Error Cons.IH [of v "error_callback st m"]
      by (simp add: error_callback_records)
  qed
qed

lemma handleFileChange_append:
  "handleFileChange st =
     (case handleFileChange (st\<lparr>records := []\<rparr>) of
        (st', x) \<Rightarrow> (st'\<lparr>records := records st @ records st'\<rparr>, x))"
proof (cases "file st")
  case None
  then show ?thesis by (simp add: handleFileChange_def)
next
  case (Some evs)
  let ?S = "st\<lparr>error := None, loading := True\<rparr>"
  have eq: "(st\<lparr>records := []\<rparr>)\<lparr>error := None, loading := True\<rparr> = ?S\<lparr>records := []\<rparr>"
    by simp
  have "file (st\<lparr>records := []\<rparr>) = Some evs"
    using Some by simp
  then have "handleFileChange (st\<lparr>records := []\<rparr>)
      = deliver initial_vars ((st\<lparr>records := []\<rparr>)\<lparr>error := None, loading := True\<rparr>) evs"
    unfolding handleFileChange_def by (simp only: option.case)
  then have fresh: "handleFileChange (st\<lparr>records := []\<rparr>) = deliver initial_vars (?S\<lparr>records := []\<rparr>) evs"
    by (simp only: eq)
  have "handleFileChange st = deliver initial_vars ?S evs"
    unfolding handleFileChange_def using Some by (simp only: option.case)
  also have "\<dots> = (case deliver initial_vars (?S\<lparr>records := []\<rparr>) evs of
        (st', x) \<Rightarrow> (st'\<lparr>records := records ?S @ records st'\<rparr>, x))"
    by (rule deliver_append)
  also have "records ?S = records st" by simp
  finally show ?thesis by (simp only: fresh)
qed

lemma deliver_then_Error:
  "deliver v st (evs @ [Error message]) =
     (case deliver v st evs of
        (st', None) \<Rightarrow> (error_callback st' message, None)
      | (st', Some e) \<Rightarrow> (st', Some e))"
proof (induction evs arbitrary: v st)
  case Nil
  show ?case by simp
next
  case (Cons ev evs)
  show ?case
  proof (cases ev)
    case (Chunk chunkRows)
    then show ?thesis
      by (simp add: Cons.IH split: prod.splits option.splits)
  next
    case Complete
    then show ?thesis by (simp add: Cons.IH)
  next
    case (Error m)
    then show ?thesis by (simp add: Cons.IH)
  qed
qed

subsection \<open>Rows that are dropped\<close>

lemma forEach_not_eligible:
  assumes "\<not> (truthy_str (currentNMI v) \<and> truthy_num (intervalLength v))"
    and "\<forall>row \<in> set rows. field row 0 \<noteq> Some ''200''"
  shows "forEach v recs rows = ((v, recs), None)"
  using assms(2)
proof (induction rows)
  case Nil
  show ?case by simp
next
  case (Cons row rows)
  then have "field row 0 \<noteq> Some ''200''" by simp
  then have "on_row v recs row = Inr (v, recs)"
    using assms(1) by (cases "field row 0 = Some ''300''") (simp_all add: on_row_300_dropped on_row_other)
  with Cons show ?case by simp
qed

subsection \<open>No record holds NaN\<close>

lemma for_loop_not_NaN:
  assumes "\<forall>r \<in> set recs. \<not> isNaN (consumption r)"
  shows "\<forall>r \<in> set (for_loop cur len prefix row i recs). \<not> isNaN (consumption r)"
  using assms
  by (auto simp: for_loop_eq List.map_filter_def reading_def split: if_splits)

lemma on_row_not_NaN:
  assumes "\<forall>r \<in> set recs. \<not> isNaN (consumption r)" "on_row v recs row = Inr (v', recs')"
  shows "\<forall>r \<in> set recs'. \<not> isNaN (consumption r)"
  using assms for_loop_not_NaN [OF assms(1)]
  by (auto simp: on_row_def Let_def split: if_splits option.splits)

lemma forEach_not_NaN:
  assumes "\<forall>r \<in> set recs. \<not> isNaN (consumption r)"
  shows "\<forall>r \<in> set (snd (fst (forEach v recs rows))). \<not> isNaN (consumption r)"
  using assms
proof (induction rows arbitrary: v recs)
  case Nil
  then show ?case by simp
next
  case (Cons row rows)
  show ?case
  proof (cases "on_row v recs row")
    case (Inl e)
    with Cons.prems show ?thesis by simp
  next
    case (Inr p)
    obtain v' recs' where p: "p = (v', recs')" by (cases p)
    with Inr Cons.prems have "\<forall>r \<in> set recs'. \<not> isNaN (consumption r)"
      using on_row_not_NaN by blast
    from Cons.IH [OF this, of v'] Inr p show ?thesis by simp
  qed
qed

lemma deliver_not_NaN:
  assumes "\<forall>r \<in> set (records st). \<not> isNaN (consumption r)"
  shows "\<forall>r \<in> set (records (fst (deliver v st evs))). \<not> isNaN (consumption r)"
  using assms
proof (induction evs arbitrary: v st)
  case Nil
  then show ?case by simp
next
  case (Cons ev evs)
  show ?case
  proof (cases ev)
    case (Chunk chunkRows)
    obtain v' recs x where fe: "forEach v (records st) chunkRows = ((v', recs), x)"
      by (metis prod.exhaust)
    with forEach_not_NaN [OF Cons.prems, of v chunkRows]
    have inv: "\<forall>r \<in> set recs. \<not> isNaN (consumption r)" by simp
    show ?thesis
    proof (cases x)
      case None
      with Chunk fe Cons.IH [of "st\<lparr>records := recs\<rparr>" v'] inv show ?thesis by simp
    next
      case (Some e)
      with Chunk fe inv show ?thesis by simp
    qed
  next
    case Complete
    with Cons.IH [of "complete_callback st" v] Cons.prems show ?thesis
      by (simp add: complete_callback_records)
  next
    case (Error m)
    with Cons.IH [of "error_callback st m" v] Cons.prems show ?thesis
      by (simp add: error_callback_records)
  qed
qed

subsection \<open>The scenarios of the test suite\<close>

lemma onCopy_completed:
  "completed st \<Longrightarrow> onCopy st clipboard = Some (join (map insert_statement (records st)) [CHR 0x0A])"
  by (simp add: onCopy_def generatedSql_def)

lemma scenario_B_clipboard:
  \<open>onCopy (fst (handleFileChange
     (initial_state\<lparr>file := Some [Chunk [[''200'', ''NMI456'', '''', '''', '''', '''', '''', '''', ''60'']],
                                   Chunk [[''300'', ''20230202'', ''15.5'']],
                                   Complete]\<rparr>))) None
   = Some ''INSERT INTO meter_readings (nmi, "timestamp", consumption) VALUES ('NMI456', '2023-02-02 00:00:00', 15.5);''\<close>
  by code_simp

lemma plain_literal: "String_num (parseFloat ''20.0'') = ''20''"
  by code_simp

section \<open>The claims\<close>

subsection \<open>Timestamps of the intervals\<close>

text \<open>
  C1. Take a \<open>"300"\<close> row with a date field and consumption fields \<open>vals\<close>, processed
  while \<open>currentNMI\<close> is a non-empty string and \<open>intervalLength\<close> is a positive integer
  \<open>L\<close>, with \<open>length vals * L\<close> below \<open>2 ^ 53\<close> (where the arithmetic of doubles is
  exact). The row throws nothing and appends, in field order, one record for each field
  whose \<open>parseFloat\<close> is not NaN. The record of the field at 0-based position \<open>i\<close> has
  the timestamp made of the date rendered \<open>YYYY-MM-DD\<close>, a space, \<open>i * L div 60\<close> and
  \<open>i * L mod 60\<close> each zero-padded to two digits, and \<open>:00\<close>, and the parsed value as
  its consumption. A field that does not parse contributes no record and the positions of
  the later fields are unchanged: the index is the position in \<open>vals\<close>, not the number of
  records so far. The records are given by their timestamps and consumptions, which are
  fixed when the row is processed.
\<close>

theorem interval_timestamps:
  assumes "truthy_str (currentNMI v)"
    and "intervalLength v = Integral L" and "0 < L"
    and "int (length vals) * L < 2 ^ 53"
  shows "\<exists>em. on_row v recs (''300'' # dateStr # vals) = Inr (v, recs @ em)
           \<and> map (\<lambda>r. (timestamp r, consumption r)) em =
               List.map_filter
                 (\<lambda>i. if isNaN (parseFloat (vals ! i)) then None
                      else Some (datePrefix dateStr @ '' '' @ two_digits (int i * L div 60)
                                   @ '':'' @ two_digits (int i * L mod 60) @ '':00'',
                                 parseFloat (vals ! i)))
                 [0..<length vals]
           \<and> datePrefix dateStr
               = take 4 dateStr @ ''-'' @ take 2 (drop 4 dateStr) @ ''-'' @ take 2 (drop 6 dateStr)"
proof -
  from assms(1) obtain cur where cur: "currentNMI v = Some cur" "cur \<noteq> []"
    using truthy_str_Some by blast
  let ?f = "\<lambda>i. if isNaN (parseFloat (vals ! i)) then None
                 else Some \<lparr>nmi = cur,
                            timestamp = datePrefix dateStr @ '' '' @ two_digits (int i * L div 60)
                                          @ '':'' @ two_digits (int i * L mod 60) @ '':00'',
                            consumption = parseFloat (vals ! i)\<rparr>"
  let ?g = "\<lambda>i. if isNaN (parseFloat (vals ! i)) then None
                 else Some (datePrefix dateStr @ '' '' @ two_digits (int i * L div 60)
                              @ '':'' @ two_digits (int i * L mod 60) @ '':00'',
                            parseFloat (vals ! i))"
  let ?em = "List.map_filter ?f [0..<length vals]"
  have row: "on_row v recs (''300'' # dateStr # vals) = Inr (v, recs @ ?em)"
    using cur assms(2-4) by (rule on_row_300_exact)
  have "map_option (\<lambda>r. (timestamp r, consumption r)) \<circ> ?f = ?g"
    by (rule ext) simp
  then have proj: "map (\<lambda>r. (timestamp r, consumption r)) ?em = List.map_filter ?g [0..<length vals]"
    by (simp only: map_map_filter)
  have date: "datePrefix dateStr
         = take 4 dateStr @ ''-'' @ take 2 (drop 4 dateStr) @ ''-'' @ take 2 (drop 6 dateStr)"
    by (simp add: datePrefix_def slice_def)
  from row proj date show ?thesis by blast
qed

theorem interval_timestamps_witness:
  "\<exists>em. on_row \<lparr>currentNMI = Some ''NMI123'', intervalLength = Integral 30\<rparr> []
           [''300'', ''20230101'', ''10.5'', ''n/a'', ''11.5'', ''12'']
         = Inr (\<lparr>currentNMI = Some ''NMI123'', intervalLength = Integral 30\<rparr>, em)
       \<and> map (\<lambda>r. (timestamp r, consumption r)) em
           = [(''2023-01-01 00:00:00'', Dyadic 21 1),
              (''2023-01-01 01:00:00'', Dyadic 23 1),
              (''2023-01-01 01:30:00'', Integral 12)]"
proof -
  let ?v = "\<lparr>currentNMI = Some ''NMI123'', intervalLength = Integral 30\<rparr>"
  let ?vals = "[''10.5'', ''n/a'', ''11.5'', ''12'']"
  have h1: "truthy_str (currentNMI ?v)" by (simp add: truthy_str_def)
  have h3: "intervalLength ?v = Integral 30" by simp
  have h4: "(0::int) < 30" by simp
  have h5: "int (length ?vals) * 30 < 2 ^ 53" by simp
  have ev: "List.map_filter
              (\<lambda>i. if isNaN (parseFloat (?vals ! i)) then None
                   else Some (datePrefix ''20230101'' @ '' '' @ two_digits (int i * 30 div 60)
                                @ '':'' @ two_digits (int i * 30 mod 60) @ '':00'',
                              parseFloat (?vals ! i)))
              [0..<length ?vals]
            = [(''2023-01-01 00:00:00'', Dyadic 21 1),
               (''2023-01-01 01:00:00'', Dyadic 23 1),
               (''2023-01-01 01:30:00'', Integral 12)]"
    by code_simp
  from interval_timestamps [OF h1 h3 h4 h5, of "[]" "''20230101''"]
  have "\<exists>em. on_row ?v [] (''300'' # ''20230101'' # ?vals) = Inr (?v, em)
           \<and> map (\<lambda>r. (timestamp r, consumption r)) em
               = [(''2023-01-01 00:00:00'', Dyadic 21 1),
                  (''2023-01-01 01:00:00'', Dyadic 23 1),
                  (''2023-01-01 01:30:00'', Integral 12)]
           \<and> datePrefix ''20230101''
               = take 4 ''20230101'' @ ''-'' @ take 2 (drop 4 ''20230101'') @ ''-''
                   @ take 2 (drop 6 ''20230101'')"
    by (simp only: ev append_Nil)
  then show ?thesis
    by (elim exE conjE) (intro exI conjI, assumption+)
qed

subsection \<open>The gate of the \<open>"300"\<close> branch\<close>

text \<open>
  C2, as amended. A \<open>"300"\<close> row is dropped, with no record and no exception, unless
  \<open>currentNMI\<close> is truthy (a non-empty string) and \<open>intervalLength\<close> is truthy (any
  number but 0 and NaN); and a row that appends a record is a \<open>"300"\<close> row met with both
  truthy. In particular rows before any \<open>"200"\<close> row are dropped, and so are the rows
  after a \<open>"200"\<close> row whose field 8 parsed to NaN or to 0, up to the next \<open>"200"\<close>
  row. The gate is truthiness, not positivity: the claim as stated fails for a negative
  interval length, see the counterexample.
\<close>

theorem row_300_gate:
  "(field row 0 = Some ''300'' \<and> \<not> (truthy_str (currentNMI v) \<and> truthy_num (intervalLength v)) \<longrightarrow>
      on_row v recs row = Inr (v, recs))
   \<and> (on_row v recs row = Inr (v', recs') \<and> recs' \<noteq> recs \<longrightarrow>
        field row 0 = Some ''300'' \<and> truthy_str (currentNMI v) \<and> truthy_num (intervalLength v))
   \<and> (truthy_str c \<longleftrightarrow> (\<exists>s. c = Some s \<and> s \<noteq> []))
   \<and> (truthy_num x \<longleftrightarrow> x \<noteq> NaN \<and> x \<noteq> Integral 0)
   \<and> ((\<forall>r \<in> set rows. field r 0 \<noteq> Some ''200'') \<longrightarrow>
        forEach initial_vars recs rows = ((initial_vars, recs), None))
   \<and> (field row 0 = Some ''200''
        \<and> (parseInt (field row 8) = NaN \<or> parseInt (field row 8) = Integral 0)
        \<and> (\<forall>r \<in> set rows. field r 0 \<noteq> Some ''200'') \<longrightarrow>
        forEach v recs (row # rows)
          = ((\<lparr>currentNMI = field row 1, intervalLength = parseInt (field row 8)\<rparr>, recs), None))"
proof (intro conjI impI)
  assume "field row 0 = Some ''300'' \<and> \<not> (truthy_str (currentNMI v) \<and> truthy_num (intervalLength v))"
  then show "on_row v recs row = Inr (v, recs)"
    by (simp add: on_row_300_dropped)
next
  assume a: "on_row v recs row = Inr (v', recs') \<and> recs' \<noteq> recs"
  then show "field row 0 = Some ''300''"
    by (auto simp: on_row_def Let_def split: if_splits option.splits)
  from a show "truthy_str (currentNMI v)"
    by (auto simp: on_row_def Let_def split: if_splits option.splits)
  from a show "truthy_num (intervalLength v)"
    by (auto simp: on_row_def Let_def split: if_splits option.splits)
next
  show "truthy_str c \<longleftrightarrow> (\<exists>s. c = Some s \<and> s \<noteq> [])"
    by (cases c) (simp_all add: truthy_str_def)
next
  show "truthy_num x \<longleftrightarrow> x \<noteq> NaN \<and> x \<noteq> Integral 0"
    by (simp add: truthy_num_def)
next
  assume "\<forall>r \<in> set rows. field r 0 \<noteq> Some ''200''"
  then show "forEach initial_vars recs rows = ((initial_vars, recs), None)"
    by (intro forEach_not_eligible) (simp_all add: initial_vars_def truthy_str_def)
next
  assume a: "field row 0 = Some ''200''
        \<and> (parseInt (field row 8) = NaN \<or> parseInt (field row 8) = Integral 0)
        \<and> (\<forall>r \<in> set rows. field r 0 \<noteq> Some ''200'')"
  let ?v = "\<lparr>currentNMI = field row 1, intervalLength = parseInt (field row 8)\<rparr>"
  have "on_row v recs row = Inr (?v, recs)"
    using a by (simp add: on_row_200)
  moreover have "forEach ?v recs rows = ((?v, recs), None)"
    using a by (intro forEach_not_eligible) (auto simp: truthy_num_def)
  ultimately show "forEach v recs (row # rows) = ((?v, recs), None)"
    by simp
qed

theorem row_300_gate_witness:
  "forEach initial_vars [] [[''300'', ''20230101'', ''10.5'', ''20.0'']] = ((initial_vars, []), None)
   \<and> forEach initial_vars []
        [[''200'', ''NMI1'', ''a'', ''b'', ''c'', ''d'', ''e'', ''f'', ''0''],
         [''300'', ''20230101'', ''10.5'']]
       = ((\<lparr>currentNMI = Some ''NMI1'', intervalLength = Integral 0\<rparr>, []), None)"
proof -
  let ?rows = "[[''300'', ''20230101'', ''10.5'', ''20.0'']]"
  let ?row = "[''200'', ''NMI1'', ''a'', ''b'', ''c'', ''d'', ''e'', ''f'', ''0'']"
  let ?rest = "[[''300'', ''20230101'', ''10.5'']]"
  have h1: "\<forall>r \<in> set ?rows. field r 0 \<noteq> Some ''200''" by code_simp
  have h2: "field ?row 0 = Some ''200''
        \<and> (parseInt (field ?row 8) = NaN \<or> parseInt (field ?row 8) = Integral 0)
        \<and> (\<forall>r \<in> set ?rest. field r 0 \<noteq> Some ''200'')" by code_simp
  have f: "field ?row 1 = Some ''NMI1''" "parseInt (field ?row 8) = Integral 0" by code_simp+
  from row_300_gate [where rows = ?rows and recs = "[]"]
  have a: "forEach initial_vars [] ?rows = ((initial_vars, []), None)"
    using h1 by blast
  from row_300_gate [where row = ?row and rows = ?rest and recs = "[]" and v = initial_vars]
  have b: "forEach initial_vars [] (?row # ?rest)
          = ((\<lparr>currentNMI = field ?row 1, intervalLength = parseInt (field ?row 8)\<rparr>, []), None)"
    using h2 by blast
  from a b show ?thesis by (simp only: f)
qed

text \<open>
  The claim as stated is false: after a \<open>"200"\<close> row whose field 8 is \<open>-30\<close>, the
  interval length is \<open>-30\<close>, not a positive number, and the next \<open>"300"\<close> row emits
  two records.
\<close>

theorem negative_interval_length_emits:
  "forEach initial_vars []
     [[''200'', ''NMI123'', ''Q'', ''U'', ''S'', ''A'', ''E'', ''kWh'', ''-30''],
      [''300'', ''20230101'', ''10.5'', ''11.5'']]
     = ((\<lparr>currentNMI = Some ''NMI123'', intervalLength = Integral (- 30)\<rparr>,
         [\<lparr>nmi = ''NMI123'', timestamp = ''2023-01-01 00:00:00'', consumption = Dyadic 21 1\<rparr>,
          \<lparr>nmi = ''NMI123'', timestamp = ''2023-01-01 -1:-30:00'', consumption = Dyadic 23 1\<rparr>]),
        None)
   \<and> \<not> (0::int) < - 30"
  by code_simp

subsection \<open>Which fields give a record\<close>

text \<open>
  C3, as amended. A \<open>"300"\<close> row with consumption fields \<open>vals\<close>, processed while the
  gate is open, appends exactly as many records as there are fields whose \<open>parseFloat\<close>
  is not NaN, and the consumptions of these records are the parsed values of those
  fields, in order; the other fields give no record and no exception. Through a whole
  run, no record with a NaN consumption is ever added. The test is \<open>isNaN\<close>, so a field
  that parses to an infinity does give a record: the claim as stated, with "finite",
  fails, see the counterexample.
\<close>

theorem emitted_iff_not_NaN:
  assumes "currentNMI v = Some cur" and "cur \<noteq> []" and "truthy_num (intervalLength v)"
  shows "(\<exists>em. on_row v recs (''300'' # dateStr # vals) = Inr (v, recs @ em)
              \<and> length em = length (filter (\<lambda>f. \<not> isNaN (parseFloat f)) vals)
              \<and> map consumption em = filter (\<lambda>x. \<not> isNaN x) (map parseFloat vals))
         \<and> ((\<forall>r \<in> set (records st). \<not> isNaN (consumption r)) \<longrightarrow>
              (\<forall>r \<in> set (records (fst (handleFileChange st))). \<not> isNaN (consumption r)))"
proof
  let ?em = "List.map_filter
               (\<lambda>k. reading cur (intervalLength v) (datePrefix dateStr) k (vals ! k)) [0..<length vals]"
  have "on_row v recs (''300'' # dateStr # vals) = Inr (v, recs @ ?em)"
    using assms by (rule on_row_300_eligible)
  moreover have "length ?em = length (filter (\<lambda>f. \<not> isNaN (parseFloat f)) vals)"
    by (rule map_filter_reading_facts)
  moreover have "map consumption ?em = filter (\<lambda>x. \<not> isNaN x) (map parseFloat vals)"
    by (rule map_filter_reading_facts)
  ultimately show "\<exists>em. on_row v recs (''300'' # dateStr # vals) = Inr (v, recs @ em)
              \<and> length em = length (filter (\<lambda>f. \<not> isNaN (parseFloat f)) vals)
              \<and> map consumption em = filter (\<lambda>x. \<not> isNaN x) (map parseFloat vals)"
    by blast
  show "(\<forall>r \<in> set (records st). \<not> isNaN (consumption r)) \<longrightarrow>
              (\<forall>r \<in> set (records (fst (handleFileChange st))). \<not> isNaN (consumption r))"
  proof
    assume inv: "\<forall>r \<in> set (records st). \<not> isNaN (consumption r)"
    show "\<forall>r \<in> set (records (fst (handleFileChange st))). \<not> isNaN (consumption r)"
    proof (cases "file st")
      case None
      with inv show ?thesis by (simp add: handleFileChange_def)
    next
      case (Some evs)
      have "\<forall>r \<in> set (records (st\<lparr>error := None, loading := True\<rparr>)). \<not> isNaN (consumption r)"
        using inv by simp
      from deliver_not_NaN [OF this] Some show ?thesis
        by (simp add: handleFileChange_def)
    qed
  qed
qed

theorem emitted_iff_not_NaN_witness:
  "\<exists>em. on_row \<lparr>currentNMI = Some ''NMI789'', intervalLength = Integral 15\<rparr> []
           [''300'', ''20230303'', ''invalid'', ''7'', ''-Infinity'', ''data'']
         = Inr (\<lparr>currentNMI = Some ''NMI789'', intervalLength = Integral 15\<rparr>, em)
       \<and> length em = 2
       \<and> map consumption em = [Integral 7, NegInfinity]"
proof -
  let ?v = "\<lparr>currentNMI = Some ''NMI789'', intervalLength = Integral 15\<rparr>"
  let ?vals = "[''invalid'', ''7'', ''-Infinity'', ''data'']"
  have h1: "currentNMI ?v = Some ''NMI789''" by simp
  have h2: "''NMI789'' \<noteq> []" by simp
  have h3: "truthy_num (intervalLength ?v)" by (simp add: truthy_num_def)
  have c: "length (filter (\<lambda>f. \<not> isNaN (parseFloat f)) ?vals) = 2"
    by code_simp
  have m: "filter (\<lambda>x. \<not> isNaN x) (map parseFloat ?vals) = [Integral 7, NegInfinity]"
    by code_simp
  from emitted_iff_not_NaN [OF h1 h2 h3, of "[]" "''20230303''" ?vals initial_state]
  show ?thesis by (simp only: c m append_Nil)
qed

text \<open>
  The claim as stated is false: the field \<open>Infinity\<close> parses to the number Infinity,
  which is not finite, and a record is emitted for it.
\<close>

theorem infinity_is_emitted:
  "forEach initial_vars []
     [[''200'', ''NMI123'', ''Q'', ''U'', ''S'', ''A'', ''E'', ''kWh'', ''30''],
      [''300'', ''20230101'', ''Infinity'']]
     = ((\<lparr>currentNMI = Some ''NMI123'', intervalLength = Integral 30\<rparr>,
         [\<lparr>nmi = ''NMI123'', timestamp = ''2023-01-01 00:00:00'', consumption = PosInfinity\<rparr>]),
        None)
   \<and> parseFloat ''Infinity'' = PosInfinity
   \<and> \<not> is_finite PosInfinity"
  by code_simp

subsection \<open>Scenario A\<close>

text \<open>
  C4. The row \<open>["200","NMI123","Q","U","S","A","E","kWh","30"]\<close> followed by the row
  \<open>["300","20230101","10.5","11.5"]\<close>, in one batch or in two batches of a run, gives
  exactly two records, in this order: NMI123 at \<open>2023-01-01 00:00:00\<close> with 10.5, then
  NMI123 at \<open>2023-01-01 00:30:00\<close> with 11.5. (\<open>Dyadic 21 1\<close> is the double \<open>21 / 2\<close>,
  which \<open>10.5\<close> parses to and which prints as \<open>10.5\<close>.)
\<close>

theorem scenario_A:
  "forEach initial_vars []
     [[''200'', ''NMI123'', ''Q'', ''U'', ''S'', ''A'', ''E'', ''kWh'', ''30''],
      [''300'', ''20230101'', ''10.5'', ''11.5'']]
     = ((\<lparr>currentNMI = Some ''NMI123'', intervalLength = Integral 30\<rparr>,
         [\<lparr>nmi = ''NMI123'', timestamp = ''2023-01-01 00:00:00'', consumption = Dyadic 21 1\<rparr>,
          \<lparr>nmi = ''NMI123'', timestamp = ''2023-01-01 00:30:00'', consumption = Dyadic 23 1\<rparr>]),
        None)
   \<and> handleFileChange
       (initial_state\<lparr>file := Some [Chunk [[''200'', ''NMI123'', ''Q'', ''U'', ''S'', ''A'', ''E'', ''kWh'', ''30'']],
                                     Chunk [[''300'', ''20230101'', ''10.5'', ''11.5'']],
                                     Complete]\<rparr>)
       = (\<lparr>records =
             [\<lparr>nmi = ''NMI123'', timestamp = ''2023-01-01 00:00:00'', consumption = Dyadic 21 1\<rparr>,
              \<lparr>nmi = ''NMI123'', timestamp = ''2023-01-01 00:30:00'', consumption = Dyadic 23 1\<rparr>],
           loading = False, completed = True, error = None,
           file = Some [Chunk [[''200'', ''NMI123'', ''Q'', ''U'', ''S'', ''A'', ''E'', ''kWh'', ''30'']],
                        Chunk [[''300'', ''20230101'', ''10.5'', ''11.5'']],
                        Complete]\<rparr>, None)
   \<and> parseFloat ''10.5'' = Dyadic 21 1 \<and> String_num (Dyadic 21 1) = ''10.5''
   \<and> parseFloat ''11.5'' = Dyadic 23 1 \<and> String_num (Dyadic 23 1) = ''11.5''"
  by code_simp

subsection \<open>The \<open>"200"\<close> branch\<close>

text \<open>
  C5. A \<open>"200"\<close> row sets \<open>currentNMI\<close> to its field 1 as it is and \<open>intervalLength\<close>
  to \<open>parseInt\<close> of its field 8 in base 10, whatever the two held before; it appends
  nothing. For a field of decimal digits that is the integer they denote. \<open>parseInt\<close>
  gives NaN exactly when no digit follows the leading white space and sign, and then
  every following row is dropped until the next \<open>"200"\<close> row, which sets both again.
\<close>

theorem row_200_overwrites:
  "(field row 0 = Some ''200'' \<longrightarrow>
      on_row v recs row
        = Inr (\<lparr>currentNMI = field row 1, intervalLength = parseInt (field row 8)\<rparr>, recs))
   \<and> (ds \<noteq> [] \<and> (\<forall>c \<in> set ds. is_digit c) \<and> digits_value ds < 2 ^ 53 \<longrightarrow>
        parseInt (Some ds) = Integral (digits_value ds))
   \<and> (parseInt x = NaN \<longleftrightarrow>
        takeWhile is_digit (snd (take_sign (dropWhile is_space
          (case x of None \<Rightarrow> ''undefined'' | Some s \<Rightarrow> s)))) = [])
   \<and> (field row 0 = Some ''200'' \<and> parseInt (field row 8) = NaN
        \<and> (\<forall>r \<in> set rows. field r 0 \<noteq> Some ''200'') \<longrightarrow>
        forEach v recs (row # rows)
          = ((\<lparr>currentNMI = field row 1, intervalLength = NaN\<rparr>, recs), None))"
proof (intro conjI impI)
  assume "field row 0 = Some ''200''"
  then show "on_row v recs row
        = Inr (\<lparr>currentNMI = field row 1, intervalLength = parseInt (field row 8)\<rparr>, recs)"
    by (rule on_row_200)
next
  assume "ds \<noteq> [] \<and> (\<forall>c \<in> set ds. is_digit c) \<and> digits_value ds < 2 ^ 53"
  then show "parseInt (Some ds) = Integral (digits_value ds)"
    by (simp add: parseInt_digits)
next
  show "parseInt x = NaN \<longleftrightarrow>
        takeWhile is_digit (snd (take_sign (dropWhile is_space
          (case x of None \<Rightarrow> ''undefined'' | Some s \<Rightarrow> s)))) = []"
    by (rule parseInt_NaN_iff)
next
  assume a: "field row 0 = Some ''200'' \<and> parseInt (field row 8) = NaN
        \<and> (\<forall>r \<in> set rows. field r 0 \<noteq> Some ''200'')"
  let ?v = "\<lparr>currentNMI = field row 1, intervalLength = NaN\<rparr>"
  have "on_row v recs row = Inr (?v, recs)"
    using a by (simp add: on_row_200)
  moreover have "forEach ?v recs rows = ((?v, recs), None)"
    using a by (intro forEach_not_eligible) (simp_all add: truthy_num_def)
  ultimately show "forEach v recs (row # rows) = ((?v, recs), None)"
    by simp
qed

theorem row_200_overwrites_witness:
  "forEach \<lparr>currentNMI = Some ''OLD'', intervalLength = Integral 30\<rparr> []
     [[''200'', ''NMI9'', ''a'', ''b'', ''c'', ''d'', ''e'', ''f'', ''abc''],
      [''300'', ''20230101'', ''1.5'']]
     = ((\<lparr>currentNMI = Some ''NMI9'', intervalLength = NaN\<rparr>, []), None)
   \<and> parseInt (Some ''30'') = Integral 30
   \<and> forEach \<lparr>currentNMI = Some ''OLD'', intervalLength = Integral 30\<rparr> []
        [[''200'', ''NMI9'', ''a'', ''b'', ''c'', ''d'', ''e'', ''f'', ''abc''],
         [''300'', ''20230101'', ''1.5''],
         [''200'', ''NMI10'', ''a'', ''b'', ''c'', ''d'', ''e'', ''f'', ''15''],
         [''300'', ''20230102'', ''2.5'']]
       = ((\<lparr>currentNMI = Some ''NMI10'', intervalLength = Integral 15\<rparr>,
           [\<lparr>nmi = ''NMI10'', timestamp = ''2023-01-02 00:00:00'', consumption = Dyadic 5 1\<rparr>]), None)"
proof -
  let ?row = "[''200'', ''NMI9'', ''a'', ''b'', ''c'', ''d'', ''e'', ''f'', ''abc'']"
  let ?rows = "[[''300'', ''20230101'', ''1.5'']]"
  have h: "field ?row 0 = Some ''200'' \<and> parseInt (field ?row 8) = NaN
        \<and> (\<forall>r \<in> set ?rows. field r 0 \<noteq> Some ''200'')"
    by code_simp
  have f1: "field ?row 1 = Some ''NMI9''" by code_simp
  have d: "''30'' \<noteq> [] \<and> (\<forall>c \<in> set ''30''. is_digit c) \<and> digits_value ''30'' < 2 ^ 53"
    by code_simp
  have dv: "digits_value ''30'' = 30" by code_simp
  have later: "forEach \<lparr>currentNMI = Some ''OLD'', intervalLength = Integral 30\<rparr> []
        [[''200'', ''NMI9'', ''a'', ''b'', ''c'', ''d'', ''e'', ''f'', ''abc''],
         [''300'', ''20230101'', ''1.5''],
         [''200'', ''NMI10'', ''a'', ''b'', ''c'', ''d'', ''e'', ''f'', ''15''],
         [''300'', ''20230102'', ''2.5'']]
       = ((\<lparr>currentNMI = Some ''NMI10'', intervalLength = Integral 15\<rparr>,
           [\<lparr>nmi = ''NMI10'', timestamp = ''2023-01-02 00:00:00'', consumption = Dyadic 5 1\<rparr>]), None)"
    by code_simp
  from row_200_overwrites [where row = ?row and rows = ?rows and recs = "[]" and ds = "''30''"
      and v = "\<lparr>currentNMI = Some ''OLD'', intervalLength = Integral 30\<rparr>"]
  have a: "forEach \<lparr>currentNMI = Some ''OLD'', intervalLength = Integral 30\<rparr> [] (?row # ?rows)
          = ((\<lparr>currentNMI = field ?row 1, intervalLength = NaN\<rparr>, []), None)"
    and b: "parseInt (Some ''30'') = Integral (digits_value ''30'')"
    using h d by blast+
  from a b later show ?thesis by (simp only: f1 dv)
qed

subsection \<open>The clipboard text\<close>

text \<open>
  C6. Once \<open>completed\<close> is set, \<open>onCopy\<close> writes the statements of the records, in
  order, joined by newlines. A statement is
  \<open>INSERT INTO meter_readings (nmi, "timestamp", consumption) VALUES ('nmi', 'timestamp', consumption);\<close>
  with the two strings put between single quotes as they are and the consumption printed
  as \<open>String\<close> prints the number (\<open>20.0\<close> is written \<open>20\<close>). Scenario B gives exactly
  the statement for NMI456 at \<open>2023-02-02 00:00:00\<close> with 15.5.
\<close>

theorem clipboard_text:
  \<open>(completed st \<longrightarrow>
      onCopy st clipboard = Some (join (map insert_statement (records st)) [CHR 0x0A]))
   \<and> join [a] [CHR 0x0A] = a
   \<and> join (a # b # cs) [CHR 0x0A] = a @ [CHR 0x0A] @ join (b # cs) [CHR 0x0A]
   \<and> insert_statement \<lparr>nmi = n, timestamp = t, consumption = c\<rparr>
       = ''INSERT INTO meter_readings (nmi, "timestamp", consumption) VALUES ('' @ [CHR 0x27] @ n
           @ [CHR 0x27] @ '', '' @ [CHR 0x27] @ t @ [CHR 0x27] @ '', '' @ String_num c @ '');''
   \<and> String_num (parseFloat ''20.0'') = ''20''
   \<and> onCopy (fst (handleFileChange
        (initial_state\<lparr>file := Some [Chunk [[''200'', ''NMI456'', '''', '''', '''', '''', '''', '''', ''60'']],
                                      Chunk [[''300'', ''20230202'', ''15.5'']],
                                      Complete]\<rparr>))) None
       = Some ''INSERT INTO meter_readings (nmi, "timestamp", consumption) VALUES ('NMI456', '2023-02-02 00:00:00', 15.5);''\<close>
  by (simp only: scenario_B_clipboard plain_literal)
     (simp add: onCopy_completed insert_statement_def)

theorem clipboard_text_witness:
  \<open>onCopy \<lparr>records = [\<lparr>nmi = ''A1'', timestamp = ''2023-01-01 00:00:00'', consumption = Integral 1\<rparr>,
                      \<lparr>nmi = ''A1'', timestamp = ''2023-01-01 00:30:00'', consumption = Dyadic 5 1\<rparr>],
            loading = False, completed = True, error = None, file = None\<rparr> None
   = Some (''INSERT INTO meter_readings (nmi, "timestamp", consumption) VALUES ('A1', '2023-01-01 00:00:00', 1);''
           @ [CHR 0x0A]
           @ ''INSERT INTO meter_readings (nmi, "timestamp", consumption) VALUES ('A1', '2023-01-01 00:30:00', 2.5);'')\<close>
proof -
  let ?st = "\<lparr>records = [\<lparr>nmi = ''A1'', timestamp = ''2023-01-01 00:00:00'', consumption = Integral 1\<rparr>,
                          \<lparr>nmi = ''A1'', timestamp = ''2023-01-01 00:30:00'', consumption = Dyadic 5 1\<rparr>],
              loading = False, completed = True, error = None, file = None\<rparr>"
  have h: "completed ?st" by simp
  have ev: \<open>join (map insert_statement (records ?st)) [CHR 0x0A]
      = ''INSERT INTO meter_readings (nmi, "timestamp", consumption) VALUES ('A1', '2023-01-01 00:00:00', 1);''
           @ [CHR 0x0A]
           @ ''INSERT INTO meter_readings (nmi, "timestamp", consumption) VALUES ('A1', '2023-01-01 00:30:00', 2.5);''\<close>
    by code_simp
  from clipboard_text [of ?st None] h
  have "onCopy ?st None = Some (join (map insert_statement (records ?st)) [CHR 0x0A])"
    by blast
  then show ?thesis by (simp only: ev)
qed

subsection \<open>SQL formatting is a map\<close>

text \<open>
  C7. The statements are a map over the records: there are as many statements as
  records, the \<open>i\<close>-th statement is the statement of the \<open>i\<close>-th record, and so two
  record lists that agree at \<open>i\<close> give the same \<open>i\<close>-th statement. Nothing is sorted or
  removed.
\<close>

theorem generatedSql_pointwise:
  "length (generatedSql recs) = length recs
   \<and> (\<forall>i < length recs. generatedSql recs ! i = insert_statement (recs ! i))
   \<and> (\<forall>i. i < length recs \<and> i < length recs' \<and> recs ! i = recs' ! i
          \<longrightarrow> generatedSql recs ! i = generatedSql recs' ! i)"
  by (simp add: generatedSql_def)

theorem generatedSql_pointwise_witness:
  "(1::nat) < length [\<lparr>nmi = ''A'', timestamp = ''t'', consumption = Integral 1\<rparr>,
                      \<lparr>nmi = ''B'', timestamp = ''u'', consumption = Integral 2\<rparr>]
   \<and> generatedSql [\<lparr>nmi = ''A'', timestamp = ''t'', consumption = Integral 1\<rparr>,
                   \<lparr>nmi = ''B'', timestamp = ''u'', consumption = Integral 2\<rparr>] ! 1
       = insert_statement \<lparr>nmi = ''B'', timestamp = ''u'', consumption = Integral 2\<rparr>"
proof -
  let ?recs = "[\<lparr>nmi = ''A'', timestamp = ''t'', consumption = Integral 1\<rparr>,
                \<lparr>nmi = ''B'', timestamp = ''u'', consumption = Integral 2\<rparr>]"
  have len: "(1::nat) < length ?recs" by simp
  from generatedSql_pointwise [of ?recs ?recs]
  have "\<forall>i < length ?recs. generatedSql ?recs ! i = insert_statement (?recs ! i)"
    by blast
  with len have "generatedSql ?recs ! 1 = insert_statement (?recs ! 1)"
    by blast
  with len show ?thesis by simp
qed

subsection \<open>The error callback\<close>

text \<open>
  C8. When the chunk source calls \<open>error\<close> with an Error of message \<open>m\<close>, the error
  text becomes \<open>Error parsing CSV file: \<close> followed by \<open>m\<close>, \<open>loading\<close> is cleared, and
  the records (and \<open>completed\<close>) are as they were. In a run, the records appended by the
  callbacks before the failure are all still there after it. Scenario E: a source that
  only fails with \<open>Test parsing error\<close> leaves exactly that text and no records.
\<close>

theorem error_callback_keeps_records:
  "error (error_callback st m) = Some (''Error parsing CSV file: '' @ m)
   \<and> loading (error_callback st m) = False
   \<and> records (error_callback st m) = records st
   \<and> completed (error_callback st m) = completed st
   \<and> (deliver v st evs = (st', None) \<longrightarrow>
        deliver v st (evs @ [Error m])
          = (st'\<lparr>error := Some (''Error parsing CSV file: '' @ m), loading := False\<rparr>, None))
   \<and> handleFileChange (initial_state\<lparr>file := Some [Error ''Test parsing error'']\<rparr>)
        = (\<lparr>records = [], loading = False, completed = False,
            error = Some ''Error parsing CSV file: Test parsing error'',
            file = Some [Error ''Test parsing error'']\<rparr>, None)"
  by (simp add: error_callback_def deliver_then_Error handleFileChange_def initial_state_def)

theorem error_callback_keeps_records_witness:
  "deliver initial_vars initial_state
     [Chunk [[''200'', ''NMI123'', ''Q'', ''U'', ''S'', ''A'', ''E'', ''kWh'', ''30'']],
      Chunk [[''300'', ''20230101'', ''10.5'', ''11.5'']],
      Error ''disk'']
     = (\<lparr>records =
           [\<lparr>nmi = ''NMI123'', timestamp = ''2023-01-01 00:00:00'', consumption = Dyadic 21 1\<rparr>,
            \<lparr>nmi = ''NMI123'', timestamp = ''2023-01-01 00:30:00'', consumption = Dyadic 23 1\<rparr>],
         loading = False, completed = False, error = Some ''Error parsing CSV file: disk'',
         file = None\<rparr>, None)"
proof -
  let ?evs = "[Chunk [[''200'', ''NMI123'', ''Q'', ''U'', ''S'', ''A'', ''E'', ''kWh'', ''30'']],
               Chunk [[''300'', ''20230101'', ''10.5'', ''11.5'']]]"
  let ?st = "\<lparr>records =
               [\<lparr>nmi = ''NMI123'', timestamp = ''2023-01-01 00:00:00'', consumption = Dyadic 21 1\<rparr>,
                \<lparr>nmi = ''NMI123'', timestamp = ''2023-01-01 00:30:00'', consumption = Dyadic 23 1\<rparr>],
             loading = False, completed = False, error = None, file = None\<rparr>"
  have run: "deliver initial_vars initial_state ?evs = (?st, None)"
    by code_simp
  from error_callback_keeps_records [of initial_state "''disk''" initial_vars ?evs ?st] run
  have "deliver initial_vars initial_state (?evs @ [Error ''disk''])
          = (?st\<lparr>error := Some (''Error parsing CSV file: '' @ ''disk''), loading := False\<rparr>, None)"
    by blast
  then show ?thesis by simp
qed

subsection \<open>A second run\<close>

text \<open>
  C9. \<open>handleFileChange\<close> resets \<open>error\<close> and \<open>loading\<close> and nothing else: the records
  of earlier runs stay. The run then appends to them, so that the records after it are
  the earlier records followed by what the same file gives from an empty list, the
  statement count is the sum of the two, and the clipboard text covers both.
\<close>

theorem second_run_appends:
  "(file st = Some evs \<longrightarrow>
      handleFileChange st = deliver initial_vars (st\<lparr>error := None, loading := True\<rparr>) evs)
   \<and> records (st\<lparr>error := None, loading := True\<rparr>) = records st
   \<and> completed (st\<lparr>error := None, loading := True\<rparr>) = completed st
   \<and> handleFileChange st =
       (case handleFileChange (st\<lparr>records := []\<rparr>) of
          (st', x) \<Rightarrow> (st'\<lparr>records := records st @ records st'\<rparr>, x))
   \<and> length (generatedSql (records (fst (handleFileChange st))))
       = length (records st) + length (records (fst (handleFileChange (st\<lparr>records := []\<rparr>))))
   \<and> (completed (fst (handleFileChange st)) \<longrightarrow>
        onCopy (fst (handleFileChange st)) clipboard
          = Some (join (generatedSql (records st @ records (fst (handleFileChange (st\<lparr>records := []\<rparr>)))))
                    [CHR 0x0A]))"
proof -
  obtain st' x where run: "handleFileChange (st\<lparr>records := []\<rparr>) = (st', x)"
    by (cases "handleFileChange (st\<lparr>records := []\<rparr>)")
  with handleFileChange_append [of st]
  have full: "handleFileChange st = (st'\<lparr>records := records st @ records st'\<rparr>, x)"
    by simp
  show ?thesis
    using run full handleFileChange_append [of st]
    by (simp add: handleFileChange_def generatedSql_def onCopy_def)
qed

theorem second_run_appends_witness:
  "records (fst (handleFileChange
     \<lparr>records = [\<lparr>nmi = ''NMI456'', timestamp = ''2023-02-02 00:00:00'', consumption = Dyadic 31 1\<rparr>],
      loading = False, completed = True, error = None,
      file = Some [Chunk [[''200'', ''NMI123'', ''Q'', ''U'', ''S'', ''A'', ''E'', ''kWh'', ''30'']],
                   Chunk [[''300'', ''20230101'', ''10.5'', ''11.5'']],
                   Complete]\<rparr>))
   = [\<lparr>nmi = ''NMI456'', timestamp = ''2023-02-02 00:00:00'', consumption = Dyadic 31 1\<rparr>,
      \<lparr>nmi = ''NMI123'', timestamp = ''2023-01-01 00:00:00'', consumption = Dyadic 21 1\<rparr>,
      \<lparr>nmi = ''NMI123'', timestamp = ''2023-01-01 00:30:00'', consumption = Dyadic 23 1\<rparr>]"
proof -
  let ?evs = "[Chunk [[''200'', ''NMI123'', ''Q'', ''U'', ''S'', ''A'', ''E'', ''kWh'', ''30'']],
               Chunk [[''300'', ''20230101'', ''10.5'', ''11.5'']],
               Complete]"
  let ?prior = "[\<lparr>nmi = ''NMI456'', timestamp = ''2023-02-02 00:00:00'', consumption = Dyadic 31 1\<rparr>]"
  let ?st = "\<lparr>records = ?prior, loading = False, completed = True, error = None, file = Some ?evs\<rparr>"
  have fresh: "handleFileChange (?st\<lparr>records := []\<rparr>)
      = (\<lparr>records =
            [\<lparr>nmi = ''NMI123'', timestamp = ''2023-01-01 00:00:00'', consumption = Dyadic 21 1\<rparr>,
             \<lparr>nmi = ''NMI123'', timestamp = ''2023-01-01 00:30:00'', consumption = Dyadic 23 1\<rparr>],
          loading = False, completed = True, error = None, file = Some ?evs\<rparr>, None)"
    by code_simp
  from second_run_appends [of ?st ?evs None]
  have "handleFileChange ?st =
       (case handleFileChange (?st\<lparr>records := []\<rparr>) of
          (st', x) \<Rightarrow> (st'\<lparr>records := records ?st @ records st'\<rparr>, x))"
    by blast
  then show ?thesis by (simp only: fresh) simp
qed

subsection \<open>Hours beyond 23\<close>

text \<open>
  C10. Take a \<open>"300"\<close> row processed while \<open>currentNMI\<close> is a non-empty string and
  \<open>intervalLength\<close> is an integer \<open>L\<close>, with \<open>length vals * L\<close> below \<open>2 ^ 53\<close>. For a
  numeric field at position \<open>i\<close> with \<open>1440 \<le> i * L\<close>, one of the appended records has
  the field's value as its consumption and a timestamp made of the date of its row,
  unchanged, and the hour \<open>i * L div 60\<close>, which is at least 24 and is printed as it is:
  the hour is not wrapped and the date is not advanced. With an interval length of 720
  the third field is at \<open>24:00:00\<close> of the row's date.
\<close>

theorem hours_not_wrapped:
  assumes gate: "truthy_str (currentNMI v)"
    and len: "intervalLength v = Integral L"
    and exact: "int (length vals) * L < 2 ^ 53"
    and i: "i < length vals" "\<not> isNaN (parseFloat (vals ! i))"
    and late: "1440 \<le> int i * L"
  shows "\<exists>em. on_row v recs (''300'' # dateStr # vals) = Inr (v, recs @ em)
           \<and> (\<exists>r \<in> set em.
                 timestamp r = datePrefix dateStr @ '' '' @ show_nat (nat (int i * L div 60))
                                 @ '':'' @ two_digits (int i * L mod 60) @ '':00''
                 \<and> consumption r = parseFloat (vals ! i))
           \<and> 24 \<le> int i * L div 60"
proof -
  from gate obtain cur where nmi: "currentNMI v = Some cur" "cur \<noteq> []"
    using truthy_str_Some by blast
  have pos: "0 < L"
  proof (rule ccontr)
    assume "\<not> 0 < L"
    then have "int i * L \<le> 0" by (simp add: mult_nonneg_nonpos)
    with late show False by simp
  qed
  let ?f = "\<lambda>i. if isNaN (parseFloat (vals ! i)) then None
                 else Some \<lparr>nmi = cur,
                            timestamp = datePrefix dateStr @ '' '' @ two_digits (int i * L div 60)
                                          @ '':'' @ two_digits (int i * L mod 60) @ '':00'',
                            consumption = parseFloat (vals ! i)\<rparr>"
  let ?em = "List.map_filter ?f [0..<length vals]"
  let ?r = "\<lparr>nmi = cur,
             timestamp = datePrefix dateStr @ '' '' @ show_nat (nat (int i * L div 60))
                           @ '':'' @ two_digits (int i * L mod 60) @ '':00'',
             consumption = parseFloat (vals ! i)\<rparr>"
  have row: "on_row v recs (''300'' # dateStr # vals) = Inr (v, recs @ ?em)"
    using nmi len pos exact by (rule on_row_300_exact)
  have h: "24 \<le> int i * L div 60"
    using late by (simp add: zdiv_mono1 [of 1440 "int i * L" 60, simplified])
  then have "10 \<le> nat (int i * L div 60)" by simp
  then have "two_digits (int i * L div 60) = show_nat (nat (int i * L div 60))"
    by (simp add: two_digits_def padStart2_long show_nat_length)
  then have "?f i = Some ?r"
    using i(2) by simp
  moreover have "i \<in> set [0..<length vals]" using i(1) by simp
  ultimately have mem: "?r \<in> set ?em"
    unfolding set_map_filter by blast
  have "timestamp ?r = datePrefix dateStr @ '' '' @ show_nat (nat (int i * L div 60))
                         @ '':'' @ two_digits (int i * L mod 60) @ '':00''
        \<and> consumption ?r = parseFloat (vals ! i)"
    by simp
  with mem have "\<exists>r \<in> set ?em.
                 timestamp r = datePrefix dateStr @ '' '' @ show_nat (nat (int i * L div 60))
                                 @ '':'' @ two_digits (int i * L mod 60) @ '':00''
                 \<and> consumption r = parseFloat (vals ! i)"
    by blast
  with row h show ?thesis by blast
qed

theorem hours_not_wrapped_witness:
  "\<exists>em. on_row \<lparr>currentNMI = Some ''NMI123'', intervalLength = Integral 720\<rparr> []
           [''300'', ''20230101'', ''1'', ''2'', ''3'']
         = Inr (\<lparr>currentNMI = Some ''NMI123'', intervalLength = Integral 720\<rparr>, em)
       \<and> (\<exists>r \<in> set em. timestamp r = ''2023-01-01 24:00:00'' \<and> consumption r = Integral 3)"
proof -
  let ?v = "\<lparr>currentNMI = Some ''NMI123'', intervalLength = Integral 720\<rparr>"
  let ?vals = "[''1'', ''2'', ''3'']"
  have h1: "truthy_str (currentNMI ?v)" by (simp add: truthy_str_def)
  have h3: "intervalLength ?v = Integral 720" by simp
  have h5: "int (length ?vals) * 720 < 2 ^ 53" by simp
  have h6: "2 < length ?vals" by simp
  have h7: "\<not> isNaN (parseFloat (?vals ! 2))" by code_simp
  have h8: "1440 \<le> int 2 * 720" by simp
  have ts: "datePrefix ''20230101'' @ '' '' @ show_nat (nat (int 2 * 720 div 60))
              @ '':'' @ two_digits (int 2 * 720 mod 60) @ '':00'' = ''2023-01-01 24:00:00''"
    by code_simp
  have c: "parseFloat (?vals ! 2) = Integral 3" by code_simp
  from hours_not_wrapped [OF h1 h3 h5 h6 h7 h8, of "[]" "''20230101''"]
  have "\<exists>em. on_row ?v [] (''300'' # ''20230101'' # ?vals) = Inr (?v, em)
           \<and> (\<exists>r \<in> set em. timestamp r = ''2023-01-01 24:00:00'' \<and> consumption r = Integral 3)
           \<and> 24 \<le> int 2 * 720 div 60"
    by (simp only: ts c append_Nil)
  then show ?thesis
    by (elim exE conjE) (intro exI conjI, assumption+)
qed

end
